theory Spec2Isabelle
  imports Main
begin

section \<open>Strings and regular expressions of the client script\<close>

text \<open>
  The script \<^verbatim>\<open>public/js/client.js\<close> is embedded function by function. A JavaScript
  string is a \<^typ>\<open>string\<close>; a character stands for one code unit below 256. A value
  that is a string or \<^verbatim>\<open>null\<close>/\<^verbatim>\<open>undefined\<close> is a \<^typ>\<open>string option\<close>, and such a
  value is falsy when it is absent or the empty string.
\<close>

definition truthy :: "string option \<Rightarrow> bool" where
  "truthy v = (case v of None \<Rightarrow> False | Some s \<Rightarrow> s \<noteq> [])"

text \<open>\<^verbatim>\<open>a || b\<close> on such values: the left operand when it is truthy, else the right one.\<close>

definition js_or :: "string option \<Rightarrow> string option \<Rightarrow> string option" where
  "js_or a b = (if truthy a then a else b)"

subsection \<open>Case-insensitive matching\<close>

text \<open>
  All the patterns carry the flag \<^verbatim>\<open>i\<close> and none the flag \<^verbatim>\<open>u\<close>: two characters are
  compared after \<^verbatim>\<open>Canonicalize\<close>, which maps a character to its upper case, except that
  a code unit from 128 on is never mapped to one below 128. The patterns of the script
  consist of ASCII characters only, so the comparison with a pattern character depends on
  the canonical form of ASCII letters alone, and \<open>canon\<close> leaves every other character
  as it is.
\<close>

definition lower_letters :: string where
  "lower_letters = ''abcdefghijklmnopqrstuvwxyz''"

definition upper_letters :: string where
  "upper_letters = ''ABCDEFGHIJKLMNOPQRSTUVWXYZ''"

definition canon :: "char \<Rightarrow> char" where
  "canon c = (case map_of (zip lower_letters upper_letters) c of Some u \<Rightarrow> u | None \<Rightarrow> c)"

text \<open>
  A character class is the list of its members (a range is written out) and a flag for
  \<^verbatim>\<open>[^...]\<close>. A character belongs to the class when its canonical form is the
  canonical form of a member; a negated class inverts the answer.
\<close>

definition digits :: string where
  "digits = ''0123456789''"

definition alnum :: string where
  "alnum = lower_letters @ upper_letters @ digits"

definition cls_match :: "bool \<Rightarrow> string \<Rightarrow> char \<Rightarrow> bool" where
  "cls_match negated members c = (negated \<noteq> (canon c \<in> set (map canon members)))"

subsection \<open>The backtracking matcher\<close>

text \<open>
  The fragment of the regular expression syntax that the script uses: literal characters,
  character classes (possibly negated), sequence, alternation inside a group, the greedy
  quantifier \<^verbatim>\<open>?\<close> on a character or a non-capturing group, the greedy quantifier \<^verbatim>\<open>+\<close> on a
  character class, and one capturing group per pattern.
\<close>

datatype regex =
    Eps
  | Chr char
  | Cls bool string
  | Seq regex regex
  | Alt regex regex
  | Opt regex
  | PlusCls bool string
  | Grp regex

text \<open>
  A matcher state is the rest of the input and the text captured by group 1 so far. As in
  the language definition, a matcher takes a continuation and returns the first success in
  priority order: a greedy quantifier tries the longer match first and falls back to the
  shorter one when the continuation fails.
\<close>

type_synonym mstate = "string \<times> string option"

fun first_some :: "('a \<Rightarrow> 'b option) \<Rightarrow> 'a list \<Rightarrow> 'b option" where
  "first_some f [] = None"
| "first_some f (x # xs) = (case f x of Some y \<Rightarrow> Some y | None \<Rightarrow> first_some f xs)"

fun rmatch :: "regex \<Rightarrow> mstate \<Rightarrow> (mstate \<Rightarrow> mstate option) \<Rightarrow> mstate option" where
  "rmatch Eps st k = k st"
| "rmatch (Chr a) (s, c) k =
     (case s of [] \<Rightarrow> None
      | x # xs \<Rightarrow> if canon x = canon a then k (xs, c) else None)"
| "rmatch (Cls negated ms) (s, c) k =
     (case s of [] \<Rightarrow> None
      | x # xs \<Rightarrow> if cls_match negated ms x then k (xs, c) else None)"
| "rmatch (Seq r1 r2) st k = rmatch r1 st (\<lambda>st'. rmatch r2 st' k)"
| "rmatch (Alt r1 r2) st k =
     (case rmatch r1 st k of Some y \<Rightarrow> Some y | None \<Rightarrow> rmatch r2 st k)"
| "rmatch (Opt r) st k =
     (case rmatch r st k of Some y \<Rightarrow> Some y | None \<Rightarrow> k st)"
| "rmatch (PlusCls negated ms) (s, c) k =
     first_some (\<lambda>n. k (drop n s, c))
       (rev [1 ..< Suc (length (takeWhile (cls_match negated ms) s))])"
| "rmatch (Grp r) (s, c) k =
     rmatch r (s, c) (\<lambda>(s', c'). k (s', Some (take (length s - length s') s)))"

text \<open>
  \<^verbatim>\<open>url.match(pattern)\<close> for a pattern without the flag \<^verbatim>\<open>g\<close>: the match is tried at
  every start position from the left, the end of the string included. The result is
  \<open>None\<close> for \<^verbatim>\<open>null\<close> and otherwise holds \<^verbatim>\<open>match[1]\<close>, which is absent when the group
  took no part in the match.
\<close>

fun str_match :: "regex \<Rightarrow> string \<Rightarrow> string option option" where
  "str_match r [] =
     (case rmatch r ([], None) Some of Some (_, c) \<Rightarrow> Some c | None \<Rightarrow> None)"
| "str_match r (x # xs) =
     (case rmatch r (x # xs, None) Some of Some (_, c) \<Rightarrow> Some c | None \<Rightarrow> str_match r xs)"

definition lit :: "string \<Rightarrow> regex" where
  "lit s = foldr (\<lambda>c r. Seq (Chr c) r) s Eps"

subsection \<open>The video-link resolver\<close>

text \<open>The common head of all patterns: \<^verbatim>\<open>(?:https?:\/\/)?(?:www\.)?\<close>.\<close>

definition url_head :: regex where
  "url_head = Seq (Opt (Seq (lit ''http'') (Seq (Opt (Chr CHR ''s'')) (lit ''://''))))
                  (Opt (lit ''www.''))"

definition query_id :: regex where \<comment> \<open>\<^verbatim>\<open>([^&#]+)\<close>\<close>
  "query_id = Grp (PlusCls True ''&#'')"

definition path_id :: regex where \<comment> \<open>\<^verbatim>\<open>([^?&#]+)\<close>\<close>
  "path_id = Grp (PlusCls True ''?&#'')"

definition digit_id :: regex where \<comment> \<open>\<^verbatim>\<open>(\d+)\<close>\<close>
  "digit_id = Grp (PlusCls False digits)"

definition alnum_id :: regex where \<comment> \<open>\<^verbatim>\<open>([a-zA-Z0-9]+)\<close>\<close>
  "alnum_id = Grp (PlusCls False alnum)"

definition youtubePatterns :: "regex list" where
  "youtubePatterns =
     [Seq url_head (Seq (lit ''youtube.com/watch?v='') query_id),
      Seq url_head (Seq (lit ''youtube.com/embed/'') path_id),
      Seq url_head (Seq (lit ''youtube.com/v/'') path_id),
      Seq url_head (Seq (lit ''youtu.be/'') path_id)]"

definition vimeoPatterns :: "regex list" where
  "vimeoPatterns =
     [Seq url_head (Seq (lit ''vimeo.com/'') digit_id),
      Seq url_head (Seq (lit ''player.vimeo.com/video/'') digit_id)]"

definition dailymotionPatterns :: "regex list" where
  "dailymotionPatterns =
     [Seq url_head (Seq (lit ''dailymotion.com'')
        (Seq (Alt (lit ''/video'') (lit ''/hub'')) (Seq (Chr CHR ''/'') alnum_id))),
      Seq url_head (Seq (lit ''dai.ly/'') alnum_id)]"

text \<open>
  One of the three loops \<^verbatim>\<open>for (const pattern of patterns)\<close>: the first pattern with
  \<^verbatim>\<open>match && match[1]\<close> truthy gives the id.
\<close>

fun first_id :: "regex list \<Rightarrow> string \<Rightarrow> string option" where
  "first_id [] url = None"
| "first_id (p # ps) url =
     (case str_match p url of
        Some m1 \<Rightarrow> if truthy m1 then m1 else first_id ps url
      | None \<Rightarrow> first_id ps url)"

text \<open>
  The three template literals, line breaks and indentation included, each split at
  \<^verbatim>\<open>${match[1]}\<close>.
\<close>

definition indent16 :: string where
  "indent16 = replicate 16 CHR '' ''"

definition iframe_end :: string where
  "iframe_end = indent16 @ ''allowfullscreen>\<newline>'' @ replicate 12 CHR '' '' @ ''</iframe>''"

definition youtube_head :: string where
  \<open>youtube_head = ''<iframe \<newline>'' @ indent16 @ ''src="https://www.youtube.com/embed/''\<close>

definition youtube_tail :: string where
  \<open>youtube_tail = ''?autoplay=0&rel=0" \<newline>'' @ indent16 @
     ''allow="accelerometer; autoplay; clipboard-write; encrypted-media; gyroscope; picture-in-picture" \<newline>'' @
     iframe_end\<close>

definition youtube_iframe :: "string \<Rightarrow> string" where
  "youtube_iframe v = youtube_head @ v @ youtube_tail"

definition vimeo_head :: string where
  \<open>vimeo_head = ''<iframe \<newline>'' @ indent16 @ ''src="https://player.vimeo.com/video/''\<close>

definition vimeo_tail :: string where
  \<open>vimeo_tail = ''?autoplay=0" \<newline>'' @ indent16 @
     ''allow="autoplay; fullscreen; picture-in-picture" \<newline>'' @ iframe_end\<close>

definition vimeo_iframe :: "string \<Rightarrow> string" where
  "vimeo_iframe v = vimeo_head @ v @ vimeo_tail"

definition dailymotion_head :: string where
  \<open>dailymotion_head =
     ''<iframe \<newline>'' @ indent16 @ ''src="https://www.dailymotion.com/embed/video/''\<close>

definition dailymotion_tail :: string where
  \<open>dailymotion_tail = ''?autoplay=0" \<newline>'' @ indent16 @
     ''allow="autoplay; fullscreen; picture-in-picture" \<newline>'' @ iframe_end\<close>

definition dailymotion_iframe :: "string \<Rightarrow> string" where
  "dailymotion_iframe v = dailymotion_head @ v @ dailymotion_tail"

text \<open>
  \<^verbatim>\<open>createVideoEmbed(url)\<close>: \<open>None\<close> is \<^verbatim>\<open>null\<close>. A falsy \<^verbatim>\<open>url\<close> returns the empty
  string before any pattern is tried.
\<close>

definition createVideoEmbed :: "string \<Rightarrow> string option" where
  "createVideoEmbed url =
     (if url = [] then Some []
      else case first_id youtubePatterns url of
        Some v \<Rightarrow> Some (youtube_iframe v)
      | None \<Rightarrow>
          (case first_id vimeoPatterns url of
             Some v \<Rightarrow> Some (vimeo_iframe v)
           | None \<Rightarrow>
               (case first_id dailymotionPatterns url of
                  Some v \<Rightarrow> Some (dailymotion_iframe v)
                | None \<Rightarrow> None)))"

section \<open>Result cards\<close>

text \<open>
  A search result as the server sends it. Every field but \<^verbatim>\<open>url\<close> may be absent. The
  fields \<^verbatim>\<open>thumbnail\<close> and \<^verbatim>\<open>duration\<close> are read by \<^verbatim>\<open>addSearchResult\<close> only, which
  nothing in the script calls.
\<close>

record search_result =
  r_type :: "string option"
  r_url :: string
  r_title :: "string option"
  r_description :: "string option"
  r_source :: "string option"
  r_platform :: "string option"
  r_favicon :: "string option"

text \<open>\<^verbatim>\<open>a || 'default'\<close> with a string default.\<close>

definition or_else :: "string option \<Rightarrow> string \<Rightarrow> string" where
  "or_else a d = (case a of None \<Rightarrow> d | Some s \<Rightarrow> if s \<noteq> [] then s else d)"

text \<open>
  The node tree that \<^verbatim>\<open>createResultElement\<close> builds, reduced to what the script sets:
  the favicon source, the title link, the description, the source line, the watch button
  (its \<^verbatim>\<open>innerHTML\<close>; absent on a card that is not a video) and the video container
  (its \<^verbatim>\<open>style.display\<close> and \<^verbatim>\<open>innerHTML\<close>). The click handler of the watch button closes
  over \<^verbatim>\<open>result\<close>, which the card keeps as \<open>card_result\<close>. The \<^verbatim>\<open>onerror\<close> handler of
  the favicon, which replaces a source that does not load, is left out.
\<close>

record card =
  card_result :: search_result
  favicon_src :: string
  title_href :: string
  title_text :: "string option"
  description_text :: "string option"
  source_text :: string
  watch_button :: "string option"
  video_display :: string
  video_html :: string

definition watch_label :: string where
  \<open>watch_label = ''<i class="fas fa-play"></i> Watch Now''\<close>

definition createResultElement :: "search_result \<Rightarrow> card" where
  "createResultElement result =
     \<lparr> card_result = result,
       favicon_src = or_else (r_favicon result) ''favicon.ico'',
       title_href = r_url result,
       title_text = r_title result,
       description_text = r_description result,
       source_text = ''Source: '' @ or_else (js_or (r_source result) (r_platform result)) ''Unknown'',
       watch_button = (if r_type result = Some ''video'' then Some watch_label else None),
       video_display = ''none'',
       video_html = [] \<rparr>"

definition close_button_html :: string where
  \<open>close_button_html = ''<button class="close-button" onclick="closeVideo(this)">Close Video</button>''\<close>

definition cannot_embed_html :: string where
  \<open>cannot_embed_html = ''<div class="error">Sorry, this video cannot be embedded.</div>''\<close>

text \<open>
  \<^verbatim>\<open>handleWatchClick(resultElement, url)\<close>. The card always has its video container, so the
  early return is never taken. \<open>answer\<close> is what the user answers to \<^verbatim>\<open>confirm\<close>; the
  second component lists the URLs passed to \<^verbatim>\<open>window.open\<close>.
\<close>

definition handleWatchClick :: "bool \<Rightarrow> string \<Rightarrow> card \<Rightarrow> card \<times> string list" where
  "handleWatchClick answer url c =
     (case createVideoEmbed url of
        Some embedHtml \<Rightarrow>
          if embedHtml \<noteq> []
          then (c\<lparr>video_html := embedHtml @ close_button_html, video_display := ''block''\<rparr>, [])
          else (c\<lparr>video_html := cannot_embed_html\<rparr>, if answer then [url] else [])
      | None \<Rightarrow> (c\<lparr>video_html := cannot_embed_html\<rparr>, if answer then [url] else []))"

text \<open>\<^verbatim>\<open>watchButton.onclick\<close> of a video card.\<close>

definition watch_onclick :: "bool \<Rightarrow> card \<Rightarrow> card \<times> string list" where
  "watch_onclick answer c =
     (if video_display c = ''none''
      then handleWatchClick answer (r_url (card_result c)) c
      else (c\<lparr>video_display := ''none'', video_html := [], watch_button := Some watch_label\<rparr>, []))"

section \<open>The page and the session state\<close>

text \<open>
  An assignment to \<^verbatim>\<open>innerHTML\<close> makes the browser parse the markup into elements. Of the
  elements parsed from the markup of a video container the model keeps what a lookup by id
  reads: the value of the \<^verbatim>\<open>id\<close> attribute of each element (empty when it has none) and
  the nesting.
\<close>

datatype html = Element string "html list"

text \<open>
  The children of the results area: the loading indicator, result cards, each with the
  elements now in its video container, and the Show-More button with its label.
\<close>

datatype node = Loader | ResultCard card "html list" | ShowMoreButton string

text \<open>
  The module-level variables of the script, the page elements it looks up once at load
  time, and the socket. An element that the page does not have is \<open>None\<close>; the script
  guards most of its accesses with \<^verbatim>\<open>if (element)\<close>. For the results area the state holds the
  list of children, for the status line \<^verbatim>\<open>textContent\<close> and \<^verbatim>\<open>className\<close>, for the stats
  line \<^verbatim>\<open>innerHTML\<close>, for the submit button \<^verbatim>\<open>disabled\<close>. \<open>emitted\<close> lists the
  \<^verbatim>\<open>search_query\<close> events sent so far (query, videos, websites) and \<open>opened\<close> the URLs
  passed to \<^verbatim>\<open>window.open\<close>.
\<close>

record client =
  totalResults :: nat
  videoResults :: nat
  websiteResults :: nat
  allResults :: "search_result list"
  currentlyDisplayedResults :: nat
  resultsContainer :: "node list option"
  statusElement :: "(string \<times> string) option"
  statsElement :: "string option"
  searchButton :: "bool option"
  socket_connected :: bool
  emitted :: "(string \<times> bool \<times> bool) list"
  opened :: "string list"

definition resultsPerPage :: nat where
  "resultsPerPage = 5"

text \<open>
  The counters and the cursor are natural numbers: the script only assigns 0 to them,
  increments them or assigns a minimum of two such numbers, and its numbers count exactly
  far beyond any number of results.

  A handler either returns or is left by an uncaught \<^verbatim>\<open>TypeError\<close>; the assignments
  made before the error stay.
\<close>

datatype completion = Returned | TypeError

subsection \<open>Helper functions\<close>

definition updateStatus :: "string \<Rightarrow> string \<Rightarrow> client \<Rightarrow> client" where
  "updateStatus message type s =
     (case statusElement s of
        None \<Rightarrow> s
      | Some _ \<Rightarrow> s\<lparr>statusElement := Some (message, ''status status-'' @ type)\<rparr>)"

text \<open>\<^verbatim>\<open>if (searchButton) searchButton.disabled = b\<close>.\<close>

definition set_disabled :: "bool \<Rightarrow> client \<Rightarrow> client" where
  "set_disabled b s =
     (case searchButton s of None \<Rightarrow> s | Some _ \<Rightarrow> s\<lparr>searchButton := Some b\<rparr>)"

definition clearResults :: "client \<Rightarrow> client" where
  "clearResults s =
     s\<lparr> resultsContainer := (case resultsContainer s of None \<Rightarrow> None | Some _ \<Rightarrow> Some []),
        statsElement := (case statsElement s of None \<Rightarrow> None | Some _ \<Rightarrow> Some []),
        totalResults := 0,
        videoResults := 0,
        websiteResults := 0,
        allResults := [],
        currentlyDisplayedResults := 0 \<rparr>"

definition showLoadingIndicator :: "client \<Rightarrow> client" where
  "showLoadingIndicator s =
     (case resultsContainer s of
        None \<Rightarrow> s
      | Some kids \<Rightarrow> s\<lparr>resultsContainer := Some (Loader # kids)\<rparr>)"

text \<open>\<^verbatim>\<open>getElementById('loader')\<close> finds the first loader in document order; the model
  looks for it among the children of the results area, where the script puts it.\<close>

definition hideLoadingIndicator :: "client \<Rightarrow> client" where
  "hideLoadingIndicator s =
     (case resultsContainer s of
        None \<Rightarrow> s
      | Some kids \<Rightarrow> s\<lparr>resultsContainer := Some (remove1 Loader kids)\<rparr>)"

text \<open>Decimal digits of a count, as a template literal prints a number below
  \<^verbatim>\<open>1e21\<close>.\<close>

function show_nat :: "nat \<Rightarrow> string" where
  "show_nat n =
     (if n < 10 then [char_of (48 + n)]
      else show_nat (n div 10) @ [char_of (48 + n mod 10)])"
  by pat_completeness auto
termination
  by (relation "measure id") auto

definition updateSearchStats :: "nat \<Rightarrow> nat \<Rightarrow> nat \<Rightarrow> string option \<Rightarrow> client \<Rightarrow> client" where
  \<open>updateSearchStats n_total n_videos n_websites query s =
     (case statsElement s of
        None \<Rightarrow> s
      | Some _ \<Rightarrow>
          s\<lparr>statsElement := Some (
            ''\<newline>'' @ replicate 8 CHR '' '' @ ''<div class="search-stats">\<newline>'' @
            replicate 12 CHR '' '' @ ''<span class="stat-item">Total Results: '' @ show_nat n_total @ ''</span>\<newline>'' @
            replicate 12 CHR '' '' @ ''<span class="stat-item">Videos: '' @ show_nat n_videos @ ''</span>\<newline>'' @
            replicate 12 CHR '' '' @ ''<span class="stat-item">Websites: '' @ show_nat n_websites @ ''</span>\<newline>'' @
            replicate 12 CHR '' '' @
            (case query of
               None \<Rightarrow> []
             | Some q \<Rightarrow> if q \<noteq> [] then ''<span class="stat-item">Query: '' @ q @ ''</span>'' else []) @
            ''\<newline>'' @ replicate 8 CHR '' '' @ ''</div>\<newline>'' @ replicate 4 CHR '' '')\<rparr>)\<close>

subsection \<open>The paginated renderer\<close>

text \<open>
  The first element with a given id in a list of element trees, in tree order, removed
  with all that is inside it; \<open>None\<close> when no element has the id.
\<close>

fun remove_id :: "string \<Rightarrow> html list \<Rightarrow> html list option" where
  "remove_id x [] = None"
| "remove_id x (Element i cs # hs) =
     (if i = x then Some hs
      else case remove_id x cs of
        Some cs' \<Rightarrow> Some (Element i cs' # hs)
      | None \<Rightarrow>
          (case remove_id x hs of
             Some hs' \<Rightarrow> Some (Element i cs # hs')
           | None \<Rightarrow> None))"

definition show_more_id :: string where
  "show_more_id = ''show-more-btn''"

text \<open>
  \<^verbatim>\<open>getElementById('show-more-btn')\<close> followed by \<^verbatim>\<open>remove()\<close>. The lookup goes through
  the document in tree order and takes the first element with the id, whoever created it:
  the button of an earlier invocation, or an element parsed from the markup of the video
  container of a card that comes before that button. The elements that the script itself
  puts into a card have no id, and the page is taken to have no element with this id
  outside the results area, the elements parsed from the markup of the stats line
  included.
\<close>

fun remove_show_more :: "node list \<Rightarrow> node list" where
  "remove_show_more [] = []"
| "remove_show_more (ShowMoreButton t # ns) = ns"
| "remove_show_more (ResultCard c f # ns) =
     (case remove_id show_more_id f of
        Some f' \<Rightarrow> ResultCard c f' # ns
      | None \<Rightarrow> ResultCard c f # remove_show_more ns)"
| "remove_show_more (Loader # ns) = Loader # remove_show_more ns"

definition show_more_text :: "nat \<Rightarrow> string" where
  "show_more_text remaining = ''Show More ('' @ show_nat remaining @ '' more results)''"

text \<open>
  The three stages of \<^verbatim>\<open>showMoreResults\<close> on the children of the results area: the loop
  that appends the cards of \<^verbatim>\<open>allResults[i]\<close> for \<open>i\<close> from the cursor up to
  \<^verbatim>\<open>endIndex\<close>, the removal of the existing button, and the new button when results
  remain.
\<close>

definition endIndex :: "client \<Rightarrow> nat" where
  "endIndex s = min (currentlyDisplayedResults s + resultsPerPage) (length (allResults s))"

definition append_batch :: "client \<Rightarrow> node list \<Rightarrow> node list" where
  "append_batch s kids =
     kids @ map (\<lambda>i. ResultCard (createResultElement (allResults s ! i)) [])
              [currentlyDisplayedResults s ..< endIndex s]"

definition add_show_more :: "client \<Rightarrow> node list \<Rightarrow> node list" where
  "add_show_more s kids =
     (if currentlyDisplayedResults s < length (allResults s)
      then kids @ [ShowMoreButton
             (show_more_text (length (allResults s) - currentlyDisplayedResults s))]
      else kids)"

text \<open>
  \<^verbatim>\<open>showMoreResults\<close> looks the results area up again and does not guard the access:
  without the element the first \<^verbatim>\<open>appendChild\<close> raises. In that case the cursor is
  assigned only when the loop body did not run.
\<close>

definition showMoreResults :: "client \<Rightarrow> completion \<times> client" where
  "showMoreResults s =
     (case resultsContainer s of
        None \<Rightarrow>
          if currentlyDisplayedResults s < endIndex s then (TypeError, s)
          else
            (let s1 = s\<lparr>currentlyDisplayedResults := endIndex s\<rparr> in
             if currentlyDisplayedResults s1 < length (allResults s1) then (TypeError, s1)
             else (Returned, s1))
      | Some kids \<Rightarrow>
          (let kids1 = append_batch s kids;
               s1 = s\<lparr>currentlyDisplayedResults := endIndex s\<rparr>;
               kids2 = remove_show_more kids1;
               kids3 = add_show_more s1 kids2
           in (Returned, s1\<lparr>resultsContainer := Some kids3\<rparr>)))"

text \<open>\<^verbatim>\<open>displayResults(results)\<close>: the assignment to \<^verbatim>\<open>innerHTML\<close> raises without the
  results area, before anything else is assigned.\<close>

definition displayResults :: "search_result list \<Rightarrow> client \<Rightarrow> completion \<times> client" where
  "displayResults results s =
     (case resultsContainer s of
        None \<Rightarrow> (TypeError, s)
      | Some _ \<Rightarrow>
          showMoreResults
            (s\<lparr>resultsContainer := Some [], allResults := results, currentlyDisplayedResults := 0\<rparr>))"

subsection \<open>Socket event handlers\<close>

definition on_connect :: "client \<Rightarrow> client" where
  "on_connect s =
     set_disabled False (updateStatus ''Connected to server'' ''success'' (s\<lparr>socket_connected := True\<rparr>))"

definition on_disconnect :: "client \<Rightarrow> client" where
  "on_disconnect s =
     set_disabled True (updateStatus ''Disconnected from server'' ''error'' (s\<lparr>socket_connected := False\<rparr>))"

definition on_search_started :: "string \<Rightarrow> client \<Rightarrow> client" where
  "on_search_started message s =
     (let s1 = updateStatus message ''info'' s;
          s2 = clearResults s1;
          s3 = showLoadingIndicator s2;
          s4 = set_disabled True s3
      in s4\<lparr>totalResults := 0, videoResults := 0, websiteResults := 0\<rparr>)"

text \<open>
  The handler of \<^verbatim>\<open>new_result\<close> with \<^verbatim>\<open>data.result\<close> and \<^verbatim>\<open>data.query\<close>. Its first
  statements count the result and push it.
\<close>

definition count_result :: "search_result \<Rightarrow> client \<Rightarrow> client" where
  "count_result result s =
     (let s1 = s\<lparr>totalResults := totalResults s + 1\<rparr>;
          s2 = (if r_type result = Some ''video''
                then s1\<lparr>videoResults := videoResults s1 + 1\<rparr>
                else if r_type result = Some ''website''
                then s1\<lparr>websiteResults := websiteResults s1 + 1\<rparr>
                else s1)
      in s2\<lparr>allResults := allResults s2 @ [result]\<rparr>)"

text \<open>
  Without a result the handler does nothing. When \<^verbatim>\<open>displayResults\<close> raises, the
  statistics are not updated.
\<close>

definition on_new_result :: "search_result option \<Rightarrow> string option \<Rightarrow> client \<Rightarrow> completion \<times> client" where
  "on_new_result data_result data_query s =
     (case data_result of
        None \<Rightarrow> (Returned, s)
      | Some result \<Rightarrow>
          (let s3 = count_result result s;
               (c, s4) = (if length (allResults s3) > currentlyDisplayedResults s3
                          then displayResults (allResults s3) s3
                          else (Returned, s3))
           in case c of
                TypeError \<Rightarrow> (TypeError, s4)
              | Returned \<Rightarrow>
                  (Returned,
                   updateSearchStats (totalResults s4) (videoResults s4) (websiteResults s4)
                     data_query s4)))"

definition on_search_completed :: "nat \<Rightarrow> nat \<Rightarrow> nat \<Rightarrow> client \<Rightarrow> client" where
  "on_search_completed n_total n_videos n_websites s =
     (let s1 = hideLoadingIndicator s;
          s2 = updateStatus (''Search completed. Found '' @ show_nat n_total @ '' results.'')
                 ''success'' s1;
          s3 = updateSearchStats n_total n_videos n_websites None s2
      in set_disabled False s3)"

definition on_search_error :: "string \<Rightarrow> client \<Rightarrow> client" where
  "on_search_error err s =
     (let s1 = hideLoadingIndicator s;
          s2 = updateStatus (''Error: '' @ err) ''error'' s1
      in set_disabled False s2)"

subsection \<open>The submit listener\<close>

text \<open>\<^verbatim>\<open>String.prototype.trim\<close> removes white space and line terminators at both ends;
  below 256 these are the code units 9 to 13, 32 and 160.\<close>

definition is_space :: "char \<Rightarrow> bool" where
  "is_space c = (c \<in> set [CHR 0x09, CHR 0x0A, CHR 0x0B, CHR 0x0C, CHR 0x0D, CHR 0x20, CHR 0xA0])"

definition trim :: "string \<Rightarrow> string" where
  "trim v = rev (dropWhile is_space (rev (dropWhile is_space v)))"

text \<open>
  The listener of the form, with the value of the query input and the state of the two
  check boxes at the time of the submission.
\<close>

definition on_submit :: "string \<Rightarrow> bool \<Rightarrow> bool \<Rightarrow> client \<Rightarrow> client" where
  "on_submit input_value videos websites s =
     (let query = trim input_value in
      if query = [] then updateStatus ''Please enter a search query'' ''error'' s
      else if \<not> socket_connected s
      then updateStatus ''Not connected to server. Please wait...'' ''error'' s
      else if \<not> videos \<and> \<not> websites
      then updateStatus ''Please select at least one search type (Videos or Websites)'' ''error'' s
      else s\<lparr>emitted := emitted s @ [(query, videos, websites)]\<rparr>)"

subsection \<open>Clicks in the results area\<close>

text \<open>
  The elements in a video container after an assignment of \<open>markup\<close> to its
  \<^verbatim>\<open>innerHTML\<close>: none for the empty string, one \<^verbatim>\<open>div\<close> without id for the fallback
  message. The markup of an embed holds text taken from the URL of the result, which the
  script does not escape; what the parser of the browser builds from it is not decided by
  the script and comes with the click as \<open>parsed\<close>, like the answer to \<^verbatim>\<open>confirm\<close>.
\<close>

definition container_elements :: "string \<Rightarrow> html list \<Rightarrow> html list" where
  "container_elements markup parsed =
     (if markup = [] then []
      else if markup = cannot_embed_html then [Element [] []]
      else parsed)"

text \<open>A click on the watch button of the child at position \<open>i\<close>; nothing happens when
  that child is not a card with a watch button.\<close>

definition on_watch_click :: "nat \<Rightarrow> bool \<Rightarrow> html list \<Rightarrow> client \<Rightarrow> client" where
  "on_watch_click i answer parsed s =
     (case resultsContainer s of
        None \<Rightarrow> s
      | Some kids \<Rightarrow>
          if i < length kids
          then (case kids ! i of
                  ResultCard c f \<Rightarrow>
                    (case watch_button c of
                       None \<Rightarrow> s
                     | Some _ \<Rightarrow>
                         (let (c', urls) = watch_onclick answer c
                          in s\<lparr>resultsContainer :=
                                  Some (kids[i := ResultCard c'
                                    (container_elements (video_html c') parsed)]),
                                opened := opened s @ urls\<rparr>))
                | _ \<Rightarrow> s)
          else s)"

subsection \<open>Runs of the client\<close>

datatype event =
    Connect
  | Disconnect
  | SearchStarted string
  | NewResult "search_result option" "string option"
  | SearchCompleted nat nat nat
  | SearchError string
  | ShowMore
  | WatchClick nat bool "html list"
  | Submit string bool bool

text \<open>
  The events that reach the script: the six socket events with their payloads, an
  invocation of \<^verbatim>\<open>showMoreResults\<close> (the click handler of the Show-More button), a click
  on the watch button of a child of the results area, with the answer to \<^verbatim>\<open>confirm\<close> and
  the elements that the parser builds from the markup of the embed, and a submission of the
  form. An uncaught error ends the handler; the page goes on with the
  state reached.
\<close>

fun step :: "event \<Rightarrow> client \<Rightarrow> client" where
  "step Connect s = on_connect s"
| "step Disconnect s = on_disconnect s"
| "step (SearchStarted message) s = on_search_started message s"
| "step (NewResult r q) s = snd (on_new_result r q s)"
| "step (SearchCompleted t v w) s = on_search_completed t v w s"
| "step (SearchError e) s = on_search_error e s"
| "step ShowMore s = snd (showMoreResults s)"
| "step (WatchClick i answer parsed) s = on_watch_click i answer parsed s"
| "step (Submit v videos websites) s = on_submit v videos websites s"

definition run :: "event list \<Rightarrow> client \<Rightarrow> client" where
  "run es s = fold step es s"

text \<open>
  The state once the script has been loaded, for a page that has or has not each of the
  four elements: the variables as initialised, an empty results area and stats line, the
  status set by \<^verbatim>\<open>updateStatus('Ready to search', 'info')\<close>, the button enabled.
\<close>

definition initial :: "bool \<Rightarrow> bool \<Rightarrow> bool \<Rightarrow> bool \<Rightarrow> client" where
  "initial has_results has_status has_stats has_button =
     updateStatus ''Ready to search'' ''info''
       \<lparr> totalResults = 0, videoResults = 0, websiteResults = 0,
         allResults = [], currentlyDisplayedResults = 0,
         resultsContainer = (if has_results then Some [] else None),
         statusElement = (if has_status then Some ([], []) else None),
         statsElement = (if has_stats then Some [] else None),
         searchButton = (if has_button then Some False else None),
         socket_connected = False, emitted = [], opened = [] \<rparr>"

section \<open>Notions used to state the properties\<close>

subsection \<open>The video-link resolver\<close>

text \<open>
  The eight patterns in the order in which \<^verbatim>\<open>createVideoEmbed\<close> tries them, and the
  provider whose template the pattern at position \<open>j\<close> fills.
\<close>

definition all_patterns :: "regex list" where
  "all_patterns = youtubePatterns @ vimeoPatterns @ dailymotionPatterns"

datatype provider = YouTube | Vimeo | Dailymotion

fun iframe_of :: "provider \<Rightarrow> string \<Rightarrow> string" where
  "iframe_of YouTube v = youtube_iframe v"
| "iframe_of Vimeo v = vimeo_iframe v"
| "iframe_of Dailymotion v = dailymotion_iframe v"

definition provider_of :: "nat \<Rightarrow> provider" where
  "provider_of j = (if j < 4 then YouTube else if j < 6 then Vimeo else Dailymotion)"

text \<open>
  The URL shapes: the position of the pattern, the text that follows the optional scheme
  and \<^verbatim>\<open>www.\<close>, and the character class of the id (negated or not, and its members).
  The first Dailymotion pattern has one shape for \<^verbatim>\<open>/video/\<close> and one for \<^verbatim>\<open>/hub/\<close>.
\<close>

definition url_shapes :: "(nat \<times> string \<times> bool \<times> string) list" where
  "url_shapes =
     [(0, ''youtube.com/watch?v='', True, ''&#''),
      (1, ''youtube.com/embed/'', True, ''?&#''),
      (2, ''youtube.com/v/'', True, ''?&#''),
      (3, ''youtu.be/'', True, ''?&#''),
      (4, ''vimeo.com/'', False, digits),
      (5, ''player.vimeo.com/video/'', False, digits),
      (6, ''dailymotion.com/video/'', False, alnum),
      (6, ''dailymotion.com/hub/'', False, alnum),
      (7, ''dai.ly/'', False, alnum)]"

definition url_heads :: "string list" where
  "url_heads = ['''', ''http://'', ''https://'', ''www.'', ''http://www.'', ''https://www.'']"

text \<open>An embed fragment is one of the three templates filled with a non-empty id.\<close>

definition is_embed_fragment :: "string \<Rightarrow> bool" where
  "is_embed_fragment f =
     (\<exists>v. v \<noteq> [] \<and> (f = youtube_iframe v \<or> f = vimeo_iframe v \<or> f = dailymotion_iframe v))"

subsection \<open>The results area\<close>

definition children :: "client \<Rightarrow> node list" where
  "children s = (case resultsContainer s of None \<Rightarrow> [] | Some kids \<Rightarrow> kids)"

fun cards_of :: "node list \<Rightarrow> card list" where
  "cards_of [] = []"
| "cards_of (ResultCard c f # ns) = c # cards_of ns"
| "cards_of (n # ns) = cards_of ns"

fun count_show_more :: "node list \<Rightarrow> nat" where
  "count_show_more [] = 0"
| "count_show_more (ShowMoreButton t # ns) = Suc (count_show_more ns)"
| "count_show_more (n # ns) = count_show_more ns"

text \<open>
  The ids of the elements of a tree, and the lists of trees, nodes and events in which no
  element parsed from the markup of an embed has the id of the Show-More button.
\<close>

fun ids_of :: "html \<Rightarrow> string list" where
  "ids_of (Element i cs) = i # concat (map ids_of cs)"

definition no_show_more_id :: "html list \<Rightarrow> bool" where
  "no_show_more_id f = (show_more_id \<notin> set (concat (map ids_of f)))"

fun plain_node :: "node \<Rightarrow> bool" where
  "plain_node (ResultCard c f) = no_show_more_id f"
| "plain_node n = True"


text \<open>
  The invariant of the session state while no such element has been parsed: the cursor is
  within the accumulator, and a results area holds exactly one Show-More button when
  results remain and none otherwise.
\<close>

definition session_inv :: "client \<Rightarrow> bool" where
  "session_inv s =
     (currentlyDisplayedResults s \<le> length (allResults s) \<and>
      (case resultsContainer s of
         None \<Rightarrow> True
       | Some kids \<Rightarrow>
           list_all plain_node kids \<and>
           count_show_more kids =
             (if currentlyDisplayedResults s < length (allResults s) then 1 else 0)))"

subsection \<open>Events and submissions\<close>

text \<open>The results that a list of events carries in its \<^verbatim>\<open>new_result\<close> events.\<close>

fun results_of :: "event list \<Rightarrow> search_result list" where
  "results_of [] = []"
| "results_of (NewResult (Some r) q # es) = r # results_of es"
| "results_of (e # es) = results_of es"

fun is_new_result :: "event \<Rightarrow> bool" where
  "is_new_result (NewResult r q) = True"
| "is_new_result e = False"

definition has_type :: "string \<Rightarrow> search_result \<Rightarrow> bool" where
  "has_type t r = (r_type r = Some t)"

text \<open>A submission is rejected with a message when the listener does nothing but
  \<^verbatim>\<open>updateStatus(message, 'error')\<close>; no event is emitted then.\<close>

definition rejected_with :: "string \<Rightarrow> client \<Rightarrow> client \<Rightarrow> bool" where
  "rejected_with message s s' =
     (s' = updateStatus message ''error'' s \<and> emitted s' = emitted s)"

subsection \<open>Sample inputs\<close>

definition sample_video :: search_result where
  "sample_video = \<lparr> r_type = Some ''video'', r_url = ''youtu.be/a1'',
     r_title = Some ''A clip'', r_description = None, r_source = None, r_platform = None,
     r_favicon = None \<rparr>"

definition sample_website :: search_result where
  "sample_website = \<lparr> r_type = Some ''website'', r_url = ''example.com/a'',
     r_title = Some ''A page'', r_description = None, r_source = None, r_platform = None,
     r_favicon = None \<rparr>"

definition sample_article_video :: search_result where
  "sample_article_video = sample_video\<lparr>r_url := ''example.com/a''\<rparr>"

definition loaded_page :: client where
  "loaded_page = initial True True True True"

definition six_results :: "event list" where
  "six_results = replicate 6 (NewResult (Some sample_video) None)"

definition mixed_results :: "event list" where
  "mixed_results =
     [NewResult (Some sample_video) None, NewResult None (Some ''q''),
      NewResult (Some sample_website) (Some ''q''), NewResult (Some sample_video) None]"

definition six_results_then_show_more :: "event list" where
  "six_results_then_show_more = six_results @ [ShowMore]"









section \<open>Lemmas about the video-link resolver\<close>

text \<open>
  What the four character classes of the patterns accept, letter case taken into account:
  the negated classes every character but the listed ones, the other two exactly their
  members.
\<close>

lemma canon_cases: "canon c = c \<or> (c \<in> set lower_letters \<and> canon c \<in> set upper_letters)"
proof (cases "map_of (zip lower_letters upper_letters) c")
  case None
  then show ?thesis by (simp add: canon_def)
next
  case (Some u)
  then have "(c, u) \<in> set (zip lower_letters upper_letters)" by (rule map_of_SomeD)
  then have "c \<in> set lower_letters" "u \<in> set upper_letters"
    by (auto dest: set_zip_leftD set_zip_rightD)
  then show ?thesis using Some by (simp add: canon_def)
qed

lemma canon_not_lower: "c \<notin> set lower_letters \<Longrightarrow> canon c = c"
  using canon_cases [of c] by blast

lemma canon_upper_of_lower: "c \<in> set lower_letters \<Longrightarrow> canon c \<in> set upper_letters"
proof -
  assume "c \<in> set lower_letters"
  then have "c \<in> fst ` set (zip lower_letters upper_letters)"
    by (simp add: lower_letters_def upper_letters_def)
  then obtain u where "map_of (zip lower_letters upper_letters) c = Some u"
    by (metis domIff dom_map_of_conv_image_fst not_Some_eq)
  then show ?thesis
    using canon_cases [of c] by (auto simp: canon_def dest!: map_of_SomeD set_zip_rightD)
qed

lemma canon_eq_plain:
  assumes "x \<notin> set upper_letters" and "x \<notin> set lower_letters"
  shows "canon c = x \<longleftrightarrow> c = x"
proof
  assume "canon c = x"
  then show "c = x" using canon_cases [of c] assms(1) by auto
next
  assume "c = x"
  then show "canon c = x" using assms(2) by (simp add: canon_not_lower)
qed

lemma punct_not_letters:
  "CHR ''&'' \<notin> set upper_letters" "CHR ''&'' \<notin> set lower_letters"
  "CHR ''#'' \<notin> set upper_letters" "CHR ''#'' \<notin> set lower_letters"
  "CHR ''?'' \<notin> set upper_letters" "CHR ''?'' \<notin> set lower_letters"
  by (simp_all add: upper_letters_def lower_letters_def)

lemma cls_match_query: "cls_match True ''&#'' c \<longleftrightarrow> c \<noteq> CHR ''&'' \<and> c \<noteq> CHR ''#''"
  by (simp add: cls_match_def canon_eq_plain punct_not_letters canon_not_lower)

lemma cls_match_path:
  "cls_match True ''?&#'' c \<longleftrightarrow> c \<noteq> CHR ''?'' \<and> c \<noteq> CHR ''&'' \<and> c \<noteq> CHR ''#''"
  by (simp add: cls_match_def canon_eq_plain punct_not_letters canon_not_lower)


lemma letters_digits_disjoint:
  "set upper_letters \<inter> set digits = {}" "set lower_letters \<inter> set digits = {}"
  "set lower_letters \<inter> set upper_letters = {}"
  by (simp_all add: upper_letters_def lower_letters_def digits_def)

lemma canon_digits: "map canon digits = digits"
proof -
  have "\<forall>d \<in> set digits. canon d = d"
    using letters_digits_disjoint(2) by (auto intro: canon_not_lower)
  then show ?thesis by (simp add: map_idI)
qed

lemma canon_upper: "map canon upper_letters = upper_letters"
proof -
  have "\<forall>d \<in> set upper_letters. canon d = d"
    using letters_digits_disjoint(3) by (auto intro: canon_not_lower)
  then show ?thesis by (simp add: map_idI)
qed

lemma cls_match_digits: "cls_match False digits c \<longleftrightarrow> c \<in> set digits"
proof -
  have "canon c \<in> set digits \<longleftrightarrow> c \<in> set digits"
  proof
    assume "canon c \<in> set digits"
    then show "c \<in> set digits"
      using canon_cases [of c] letters_digits_disjoint(1) by auto
  next
    assume "c \<in> set digits"
    then have "c \<notin> set lower_letters" using letters_digits_disjoint(2) by auto
    then have "canon c = c" by (rule canon_not_lower)
    then show "canon c \<in> set digits" using \<open>c \<in> set digits\<close> by simp
  qed
  then show ?thesis by (simp add: cls_match_def canon_digits)
qed

lemma cls_match_alnum: "cls_match False alnum c \<longleftrightarrow> c \<in> set alnum"
proof -
  have "set (map canon lower_letters) \<subseteq> set upper_letters"
    by (auto simp: canon_upper_of_lower)
  then have s: "set (map canon alnum) = set upper_letters \<union> set digits"
    unfolding alnum_def map_append canon_upper canon_digits by auto
  have "canon c \<in> set upper_letters \<union> set digits \<longleftrightarrow> c \<in> set alnum"
  proof
    assume a: "canon c \<in> set upper_letters \<union> set digits"
    show "c \<in> set alnum"
      using canon_cases [of c] a by (auto simp: alnum_def)
  next
    assume a: "c \<in> set alnum"
    show "canon c \<in> set upper_letters \<union> set digits"
    proof (cases "c \<in> set lower_letters")
      case True
      then show ?thesis by (simp add: canon_upper_of_lower)
    next
      case False
      then have "canon c = c" by (rule canon_not_lower)
      then show ?thesis using a False by (auto simp: alnum_def)
    qed
  qed
  then show ?thesis unfolding cls_match_def s by simp
qed

lemma canon_lower:
  "canon CHR ''a'' = CHR ''A''" "canon CHR ''b'' = CHR ''B''" "canon CHR ''c'' = CHR ''C''"
  "canon CHR ''d'' = CHR ''D''" "canon CHR ''e'' = CHR ''E''" "canon CHR ''f'' = CHR ''F''"
  "canon CHR ''g'' = CHR ''G''" "canon CHR ''h'' = CHR ''H''" "canon CHR ''i'' = CHR ''I''"
  "canon CHR ''j'' = CHR ''J''" "canon CHR ''k'' = CHR ''K''" "canon CHR ''l'' = CHR ''L''"
  "canon CHR ''m'' = CHR ''M''" "canon CHR ''n'' = CHR ''N''" "canon CHR ''o'' = CHR ''O''"
  "canon CHR ''p'' = CHR ''P''" "canon CHR ''q'' = CHR ''Q''" "canon CHR ''r'' = CHR ''R''"
  "canon CHR ''s'' = CHR ''S''" "canon CHR ''t'' = CHR ''T''" "canon CHR ''u'' = CHR ''U''"
  "canon CHR ''v'' = CHR ''V''" "canon CHR ''w'' = CHR ''W''" "canon CHR ''x'' = CHR ''X''"
  "canon CHR ''y'' = CHR ''Y''" "canon CHR ''z'' = CHR ''Z''"
  by (simp_all add: canon_def lower_letters_def upper_letters_def)

lemma canon_punct:
  "canon CHR '':'' = CHR '':''" "canon CHR ''/'' = CHR ''/''" "canon CHR ''.'' = CHR ''.''"
  "canon CHR ''?'' = CHR ''?''" "canon CHR ''='' = CHR ''=''"
  by (simp_all add: canon_def lower_letters_def upper_letters_def)

lemma rmatch_grp_plus:
  assumes "takeWhile (cls_match n ms) s \<noteq> []"
  shows "rmatch (Grp (PlusCls n ms)) (s, c) Some =
         Some (dropWhile (cls_match n ms) s, Some (takeWhile (cls_match n ms) s))"
proof -
  let ?t = "takeWhile (cls_match n ms) s"
  from assms obtain m where m: "length ?t = Suc m" by (cases ?t) auto
  have split: "s = ?t @ dropWhile (cls_match n ms) s" by simp
  have d: "drop (Suc m) s = dropWhile (cls_match n ms) s"
    using split m by (metis append_eq_conv_conj)
  have t: "take (Suc m) s = ?t"
    using split m by (metis append_eq_conv_conj)
  have le: "Suc m \<le> length s"
    using length_takeWhile_le [of "cls_match n ms" s] m by simp
  have r: "rev [1 ..< Suc (Suc m)] = Suc m # rev [1 ..< Suc m]" by simp
  have "rmatch (Grp (PlusCls n ms)) (s, c) Some =
        first_some (\<lambda>k. Some (drop k s, Some (take (length s - length (drop k s)) s)))
          (rev [1 ..< Suc (Suc m)])"
    by (simp add: m del: upt_Suc)
  also have "\<dots> = Some (drop (Suc m) s, Some (take (length s - length (drop (Suc m) s)) s))"
    unfolding r by simp
  also have "length s - length (drop (Suc m) s) = Suc m"
    using le by simp
  finally show ?thesis by (simp only: d t)
qed

lemmas shape_simps =
  url_heads_def url_head_def lit_def query_id_def path_id_def digit_id_def alnum_id_def
  canon_lower canon_punct rmatch_grp_plus

lemma shape_watch:
  assumes "h \<in> set url_heads" and "takeWhile (cls_match True ''&#'') rest \<noteq> []"
  shows "str_match (youtubePatterns ! 0) (h @ ''youtube.com/watch?v='' @ rest) =
         Some (Some (takeWhile (cls_match True ''&#'') rest))"
  using assms
  by (auto simp: youtubePatterns_def shape_simps simp del: rmatch.simps(7,8))

lemma shape_embed:
  assumes "h \<in> set url_heads" and "takeWhile (cls_match True ''?&#'') rest \<noteq> []"
  shows "str_match (youtubePatterns ! 1) (h @ ''youtube.com/embed/'' @ rest) =
         Some (Some (takeWhile (cls_match True ''?&#'') rest))"
  using assms
  by (auto simp: youtubePatterns_def shape_simps simp del: rmatch.simps(7,8))

lemma shape_v:
  assumes "h \<in> set url_heads" and "takeWhile (cls_match True ''?&#'') rest \<noteq> []"
  shows "str_match (youtubePatterns ! 2) (h @ ''youtube.com/v/'' @ rest) =
         Some (Some (takeWhile (cls_match True ''?&#'') rest))"
  using assms
  by (auto simp: youtubePatterns_def shape_simps simp del: rmatch.simps(7,8))

lemma shape_short:
  assumes "h \<in> set url_heads" and "takeWhile (cls_match True ''?&#'') rest \<noteq> []"
  shows "str_match (youtubePatterns ! 3) (h @ ''youtu.be/'' @ rest) =
         Some (Some (takeWhile (cls_match True ''?&#'') rest))"
  using assms
  by (auto simp: youtubePatterns_def shape_simps simp del: rmatch.simps(7,8))

lemma shape_vimeo:
  assumes "h \<in> set url_heads" and "takeWhile (cls_match False digits) rest \<noteq> []"
  shows "str_match (vimeoPatterns ! 0) (h @ ''vimeo.com/'' @ rest) =
         Some (Some (takeWhile (cls_match False digits) rest))"
  using assms
  by (auto simp: vimeoPatterns_def shape_simps simp del: rmatch.simps(7,8))

lemma shape_vimeo_player:
  assumes "h \<in> set url_heads" and "takeWhile (cls_match False digits) rest \<noteq> []"
  shows "str_match (vimeoPatterns ! 1) (h @ ''player.vimeo.com/video/'' @ rest) =
         Some (Some (takeWhile (cls_match False digits) rest))"
  using assms
  by (auto simp: vimeoPatterns_def shape_simps simp del: rmatch.simps(7,8))

lemma shape_dailymotion_video:
  assumes "h \<in> set url_heads" and "takeWhile (cls_match False alnum) rest \<noteq> []"
  shows "str_match (dailymotionPatterns ! 0) (h @ ''dailymotion.com/video/'' @ rest) =
         Some (Some (takeWhile (cls_match False alnum) rest))"
  using assms
  by (auto simp: dailymotionPatterns_def shape_simps simp del: rmatch.simps(7,8))

lemma shape_dailymotion_hub:
  assumes "h \<in> set url_heads" and "takeWhile (cls_match False alnum) rest \<noteq> []"
  shows "str_match (dailymotionPatterns ! 0) (h @ ''dailymotion.com/hub/'' @ rest) =
         Some (Some (takeWhile (cls_match False alnum) rest))"
  using assms
  by (auto simp: dailymotionPatterns_def shape_simps simp del: rmatch.simps(7,8))

lemma shape_dailymotion_short:
  assumes "h \<in> set url_heads" and "takeWhile (cls_match False alnum) rest \<noteq> []"
  shows "str_match (dailymotionPatterns ! 1) (h @ ''dai.ly/'' @ rest) =
         Some (Some (takeWhile (cls_match False alnum) rest))"
  using assms
  by (auto simp: dailymotionPatterns_def shape_simps simp del: rmatch.simps(7,8))

lemma family_lengths:
  "length youtubePatterns = 4" "length vimeoPatterns = 2" "length dailymotionPatterns = 2"
  by (simp_all add: youtubePatterns_def vimeoPatterns_def dailymotionPatterns_def)

lemma all_patterns_nth:
  "all_patterns ! 0 = youtubePatterns ! 0" "all_patterns ! 1 = youtubePatterns ! 1"
  "all_patterns ! 2 = youtubePatterns ! 2" "all_patterns ! 3 = youtubePatterns ! 3"
  "all_patterns ! 4 = vimeoPatterns ! 0" "all_patterns ! 5 = vimeoPatterns ! 1"
  "all_patterns ! 6 = dailymotionPatterns ! 0" "all_patterns ! 7 = dailymotionPatterns ! 1"
  by (simp_all add: all_patterns_def nth_append family_lengths)

lemma shape_match:
  assumes "(j, l, n, ms) \<in> set url_shapes" and "h \<in> set url_heads"
    and "takeWhile (cls_match n ms) rest \<noteq> []"
  shows "str_match (all_patterns ! j) (h @ l @ rest) = Some (Some (takeWhile (cls_match n ms) rest))"
proof -
  from assms(1) have
    "(j, l, n, ms) = (0, ''youtube.com/watch?v='', True, ''&#'') \<or>
     (j, l, n, ms) = (1, ''youtube.com/embed/'', True, ''?&#'') \<or>
     (j, l, n, ms) = (2, ''youtube.com/v/'', True, ''?&#'') \<or>
     (j, l, n, ms) = (3, ''youtu.be/'', True, ''?&#'') \<or>
     (j, l, n, ms) = (4, ''vimeo.com/'', False, digits) \<or>
     (j, l, n, ms) = (5, ''player.vimeo.com/video/'', False, digits) \<or>
     (j, l, n, ms) = (6, ''dailymotion.com/video/'', False, alnum) \<or>
     (j, l, n, ms) = (6, ''dailymotion.com/hub/'', False, alnum) \<or>
     (j, l, n, ms) = (7, ''dai.ly/'', False, alnum)"
    unfolding url_shapes_def by (simp only: list.set insert_iff empty_iff simp_thms)
  with assms(2,3) show ?thesis
    apply -
    apply (elim disjE; elim Pair_inject; hypsubst; simp only: all_patterns_nth;
        (rule shape_watch shape_embed shape_v shape_short shape_vimeo shape_vimeo_player
           shape_dailymotion_video shape_dailymotion_hub shape_dailymotion_short; assumption))
    done
qed

lemma first_id_no_match:
  "\<forall>p \<in> set ps. str_match p url = None \<Longrightarrow> first_id ps url = None"
  by (induction ps) auto

lemma first_id_hit:
  assumes "\<forall>p \<in> set ps. str_match p url = None"
    and "str_match q url = Some (Some v)" and "v \<noteq> []"
  shows "first_id (ps @ q # qs) url = Some v"
  using assms by (induction ps) (auto simp: truthy_def)

lemma first_id_nth:
  assumes "i < length ps" and "\<forall>p \<in> set (take i ps). str_match p url = None"
    and "str_match (ps ! i) url = Some (Some v)" and "v \<noteq> []"
  shows "first_id ps url = Some v"
proof -
  have "ps = take i ps @ ps ! i # drop (Suc i) ps"
    using assms(1) by (rule id_take_nth_drop)
  then have "first_id ps url = first_id (take i ps @ ps ! i # drop (Suc i) ps) url"
    by simp
  also have "\<dots> = Some v"
    using assms(2-4) by (rule first_id_hit)
  finally show ?thesis .
qed

lemma first_id_Some_nonempty: "first_id ps url = Some v \<Longrightarrow> v \<noteq> []"
  by (induction ps) (auto simp: truthy_def split: option.splits if_splits)

lemma createVideoEmbed_priority:
  assumes "url \<noteq> []" and "j < length all_patterns"
    and none: "\<forall>p \<in> set (take j all_patterns). str_match p url = None"
    and hit: "str_match (all_patterns ! j) url = Some (Some v)" and "v \<noteq> []"
  shows "createVideoEmbed url = Some (iframe_of (provider_of j) v)"
proof -
  consider (yt) "j < 4" | (vi) "4 \<le> j" "j < 6" | (dm) "6 \<le> j" "j < 8"
    using assms(2) by (fastforce simp: all_patterns_def family_lengths)
  then show ?thesis
  proof cases
    case yt
    then have "first_id youtubePatterns url = Some v"
      using none hit \<open>v \<noteq> []\<close>
      by (intro first_id_nth) (simp_all add: all_patterns_def family_lengths nth_append)
    then show ?thesis
      using yt \<open>url \<noteq> []\<close> by (simp add: createVideoEmbed_def provider_of_def)
  next
    case vi
    then have y: "first_id youtubePatterns url = None"
      using none by (intro first_id_no_match) (simp add: all_patterns_def family_lengths)
    have "first_id vimeoPatterns url = Some v"
    proof (rule first_id_nth [where i = "j - 4"])
      show "j - 4 < length vimeoPatterns" using vi by (simp add: family_lengths)
      show "\<forall>p \<in> set (take (j - 4) vimeoPatterns). str_match p url = None"
        using none vi by (simp add: all_patterns_def family_lengths)
      have "j - 4 < 2" using vi by arith
      then show "str_match (vimeoPatterns ! (j - 4)) url = Some (Some v)"
        using hit vi by (simp add: all_patterns_def family_lengths nth_append)
      show "v \<noteq> []" by fact
    qed
    then show ?thesis
      using vi y \<open>url \<noteq> []\<close> by (simp add: createVideoEmbed_def provider_of_def)
  next
    case dm
    then have y: "first_id youtubePatterns url = None"
      using none by (intro first_id_no_match) (simp add: all_patterns_def family_lengths)
    have vm: "first_id vimeoPatterns url = None"
      using none dm by (intro first_id_no_match) (simp add: all_patterns_def family_lengths)
    have "first_id dailymotionPatterns url = Some v"
    proof (rule first_id_nth [where i = "j - 6"])
      show "j - 6 < length dailymotionPatterns" using dm by (simp add: family_lengths)
      show "\<forall>p \<in> set (take (j - 6) dailymotionPatterns). str_match p url = None"
        using none dm by (simp add: all_patterns_def family_lengths)
      have "\<not> j - 4 < 2" "j - 4 - 2 = j - 6" using dm by arith+
      then show "str_match (dailymotionPatterns ! (j - 6)) url = Some (Some v)"
        using hit dm by (simp add: all_patterns_def family_lengths nth_append)
      show "v \<noteq> []" by fact
    qed
    then show ?thesis
      using dm y vm \<open>url \<noteq> []\<close> by (simp add: createVideoEmbed_def provider_of_def)
  qed
qed

lemma createVideoEmbed_no_match:
  assumes "url \<noteq> []" and "\<forall>p \<in> set all_patterns. str_match p url = None"
  shows "createVideoEmbed url = None"
  using assms by (simp add: createVideoEmbed_def all_patterns_def first_id_no_match)

lemma iframe_contains_id: "\<exists>a b. iframe_of p v = a @ v @ b"
  by (cases p) (auto simp: youtube_iframe_def vimeo_iframe_def dailymotion_iframe_def)

lemma createVideoEmbed_cases:
  "createVideoEmbed url = Some [] \<and> url = [] \<or>
   createVideoEmbed url = None \<and> url \<noteq> [] \<or>
   (\<exists>v. v \<noteq> [] \<and> url \<noteq> [] \<and>
      (createVideoEmbed url = Some (youtube_iframe v) \<or>
       createVideoEmbed url = Some (vimeo_iframe v) \<or>
       createVideoEmbed url = Some (dailymotion_iframe v)))"
  by (auto simp: createVideoEmbed_def split: option.splits dest: first_id_Some_nonempty)

section \<open>Lemmas about the renderer and the handlers\<close>

lemma cards_of_append: "cards_of (xs @ ys) = cards_of xs @ cards_of ys"
  by (induction xs rule: cards_of.induct) auto


lemma cards_of_map_ResultCard: "cards_of (map (\<lambda>i. ResultCard (f i) []) is) = map f is"
  by (induction "is") auto



lemma cards_of_remove_show_more: "cards_of (remove_show_more ns) = cards_of ns"
  by (induction ns rule: remove_show_more.induct) (auto split: option.splits)


lemma count_remove_show_more_le: "count_show_more (remove_show_more ns) \<le> count_show_more ns"
  by (induction ns rule: remove_show_more.induct) (auto split: option.splits)




lemma batch_take_drop:
  "e \<le> length xs \<Longrightarrow> map (\<lambda>i. f (xs ! i)) [c ..< e] = map f (take (e - c) (drop c xs))"
  by (auto simp: list_eq_iff_nth_eq)

lemma endIndex_le: "endIndex s \<le> length (allResults s)"
  by (simp add: endIndex_def)

lemma endIndex_eq:
  "currentlyDisplayedResults s \<le> length (allResults s) \<Longrightarrow>
   endIndex s = currentlyDisplayedResults s + min 5 (length (allResults s) - currentlyDisplayedResults s)"
  unfolding endIndex_def resultsPerPage_def by arith

lemma cards_of_append_batch:
  assumes "currentlyDisplayedResults s \<le> length (allResults s)"
  shows "cards_of (append_batch s kids) = cards_of kids @
      map createResultElement
        (take (min 5 (length (allResults s) - currentlyDisplayedResults s))
           (drop (currentlyDisplayedResults s) (allResults s)))"
proof -
  have "endIndex s - currentlyDisplayedResults s =
        min 5 (length (allResults s) - currentlyDisplayedResults s)"
    using endIndex_eq [OF assms] by simp
  then show ?thesis
    unfolding append_batch_def cards_of_append cards_of_map_ResultCard
    using batch_take_drop [OF endIndex_le, of createResultElement s "currentlyDisplayedResults s"]
    by simp
qed

lemma cards_of_add_show_more: "cards_of (add_show_more s kids) = cards_of kids"
  by (simp add: add_show_more_def cards_of_append)

lemma showMoreResults_Some:
  "resultsContainer s = Some kids \<Longrightarrow>
   showMoreResults s =
     (Returned, s\<lparr>currentlyDisplayedResults := endIndex s,
                  resultsContainer := Some (add_show_more (s\<lparr>currentlyDisplayedResults := endIndex s\<rparr>)
                    (remove_show_more (append_batch s kids)))\<rparr>)"
  by (simp add: showMoreResults_def Let_def)

lemma updateStatus_fields [simp]:
  "totalResults (updateStatus m t s) = totalResults s"
  "videoResults (updateStatus m t s) = videoResults s"
  "websiteResults (updateStatus m t s) = websiteResults s"
  "allResults (updateStatus m t s) = allResults s"
  "currentlyDisplayedResults (updateStatus m t s) = currentlyDisplayedResults s"
  "resultsContainer (updateStatus m t s) = resultsContainer s"
  "statsElement (updateStatus m t s) = statsElement s"
  "searchButton (updateStatus m t s) = searchButton s"
  "socket_connected (updateStatus m t s) = socket_connected s"
  "emitted (updateStatus m t s) = emitted s"
  "opened (updateStatus m t s) = opened s"
  by (simp_all add: updateStatus_def split: option.splits)

lemma set_disabled_fields [simp]:
  "totalResults (set_disabled b s) = totalResults s"
  "videoResults (set_disabled b s) = videoResults s"
  "websiteResults (set_disabled b s) = websiteResults s"
  "allResults (set_disabled b s) = allResults s"
  "currentlyDisplayedResults (set_disabled b s) = currentlyDisplayedResults s"
  "resultsContainer (set_disabled b s) = resultsContainer s"
  "statusElement (set_disabled b s) = statusElement s"
  "statsElement (set_disabled b s) = statsElement s"
  "socket_connected (set_disabled b s) = socket_connected s"
  "emitted (set_disabled b s) = emitted s"
  "opened (set_disabled b s) = opened s"
  by (simp_all add: set_disabled_def split: option.splits)

lemma updateSearchStats_fields [simp]:
  "totalResults (updateSearchStats a b c q s) = totalResults s"
  "videoResults (updateSearchStats a b c q s) = videoResults s"
  "websiteResults (updateSearchStats a b c q s) = websiteResults s"
  "allResults (updateSearchStats a b c q s) = allResults s"
  "currentlyDisplayedResults (updateSearchStats a b c q s) = currentlyDisplayedResults s"
  "resultsContainer (updateSearchStats a b c q s) = resultsContainer s"
  "statusElement (updateSearchStats a b c q s) = statusElement s"
  "searchButton (updateSearchStats a b c q s) = searchButton s"
  "socket_connected (updateSearchStats a b c q s) = socket_connected s"
  "emitted (updateSearchStats a b c q s) = emitted s"
  "opened (updateSearchStats a b c q s) = opened s"
  by (simp_all add: updateSearchStats_def split: option.splits)

lemma hideLoadingIndicator_fields [simp]:
  "totalResults (hideLoadingIndicator s) = totalResults s"
  "videoResults (hideLoadingIndicator s) = videoResults s"
  "websiteResults (hideLoadingIndicator s) = websiteResults s"
  "allResults (hideLoadingIndicator s) = allResults s"
  "currentlyDisplayedResults (hideLoadingIndicator s) = currentlyDisplayedResults s"
  "resultsContainer (hideLoadingIndicator s) = map_option (remove1 Loader) (resultsContainer s)"
  "statusElement (hideLoadingIndicator s) = statusElement s"
  "statsElement (hideLoadingIndicator s) = statsElement s"
  "searchButton (hideLoadingIndicator s) = searchButton s"
  "socket_connected (hideLoadingIndicator s) = socket_connected s"
  "emitted (hideLoadingIndicator s) = emitted s"
  "opened (hideLoadingIndicator s) = opened s"
  by (simp_all add: hideLoadingIndicator_def split: option.splits)







lemma displayResults_Some:
  "resultsContainer s = Some kids \<Longrightarrow>
   displayResults rs s =
     showMoreResults (s\<lparr>resultsContainer := Some [], allResults := rs, currentlyDisplayedResults := 0\<rparr>)"
  by (simp add: displayResults_def)


text \<open>The cursor stays within the accumulator, whatever the page holds.\<close>

lemma cursor_le_showMoreResults:
  "currentlyDisplayedResults s \<le> length (allResults s) \<Longrightarrow>
   currentlyDisplayedResults (snd (showMoreResults s)) \<le> length (allResults s)"
  by (auto simp: showMoreResults_def Let_def endIndex_def split: option.splits)

lemma cursor_le_displayResults:
  assumes "currentlyDisplayedResults s \<le> length (allResults s)"
  shows "currentlyDisplayedResults (snd (displayResults rs s))
     \<le> length (allResults (snd (displayResults rs s)))"
proof (cases "resultsContainer s")
  case None
  then show ?thesis using assms by (simp add: displayResults_def)
next
  case (Some kids)
  let ?s = "s\<lparr>resultsContainer := Some [], allResults := rs, currentlyDisplayedResults := 0\<rparr>"
  have "allResults (snd (showMoreResults ?s)) = allResults ?s"
    by (simp add: showMoreResults_def Let_def)
  moreover have "currentlyDisplayedResults (snd (showMoreResults ?s)) \<le> length (allResults ?s)"
    by (rule cursor_le_showMoreResults) simp
  ultimately show ?thesis using Some by (simp add: displayResults_def)
qed

lemma session_inv_eqI:
  "allResults s' = allResults s \<Longrightarrow>
   currentlyDisplayedResults s' = currentlyDisplayedResults s \<Longrightarrow>
   resultsContainer s' = resultsContainer s \<Longrightarrow> session_inv s' = session_inv s"
  by (simp add: session_inv_def)

lemma session_inv_updateSearchStats [simp]:
  "session_inv (updateSearchStats a b c q s) = session_inv s"
  by (rule session_inv_eqI) simp_all

lemma session_inv_updateStatus [simp]:
  "session_inv (updateStatus m t s) = session_inv s"
  by (rule session_inv_eqI) simp_all

lemma session_inv_set_disabled [simp]:
  "session_inv (set_disabled b s) = session_inv s"
  by (rule session_inv_eqI) simp_all

lemma count_show_more_remove1_Loader:
  "count_show_more (remove1 Loader ns) = count_show_more ns"
  by (induction ns rule: count_show_more.induct) auto

lemma plain_remove1_Loader: "list_all plain_node (remove1 Loader ns) = list_all plain_node ns"
  by (induction ns) auto

lemma session_inv_hideLoadingIndicator [simp]:
  "session_inv (hideLoadingIndicator s) = session_inv s"
  by (cases "resultsContainer s")
     (simp_all add: session_inv_def count_show_more_remove1_Loader plain_remove1_Loader)

lemma count_result_simps [simp]:
  "allResults (count_result r s) = allResults s @ [r]"
  "currentlyDisplayedResults (count_result r s) = currentlyDisplayedResults s"
  "resultsContainer (count_result r s) = resultsContainer s"
  "totalResults (count_result r s) = Suc (totalResults s)"
  "videoResults (count_result r s) = videoResults s + (if r_type r = Some ''video'' then 1 else 0)"
  "websiteResults (count_result r s) = websiteResults s + (if r_type r = Some ''website'' then 1 else 0)"
  by (simp_all add: count_result_def Let_def)

lemma fst_showMoreResults_Some:
  "resultsContainer s \<noteq> None \<Longrightarrow> fst (showMoreResults s) = Returned"
  by (auto simp: showMoreResults_Some)

lemma fst_displayResults_Some:
  "resultsContainer s \<noteq> None \<Longrightarrow> fst (displayResults rs s) = Returned"
  by (auto simp: displayResults_Some fst_showMoreResults_Some)

lemma on_new_result_Some:
  assumes "resultsContainer s \<noteq> None"
    and "currentlyDisplayedResults s \<le> length (allResults s)"
  shows "on_new_result (Some r) q s =
     (let s4 = snd (displayResults (allResults s @ [r]) (count_result r s))
      in (Returned, updateSearchStats (totalResults s4) (videoResults s4) (websiteResults s4) q s4))"
proof -
  obtain c s4 where d: "displayResults (allResults s @ [r]) (count_result r s) = (c, s4)"
    by (cases "displayResults (allResults s @ [r]) (count_result r s)")
  have "fst (displayResults (allResults s @ [r]) (count_result r s)) = Returned"
    using assms(1) by (simp add: fst_displayResults_Some)
  with d have "c = Returned" by simp
  with d show ?thesis
    using assms(2) by (simp add: on_new_result_def Let_def)
qed







lemma on_watch_click_fields [simp]:
  "totalResults (on_watch_click i a p s) = totalResults s"
  "videoResults (on_watch_click i a p s) = videoResults s"
  "websiteResults (on_watch_click i a p s) = websiteResults s"
  "allResults (on_watch_click i a p s) = allResults s"
  "currentlyDisplayedResults (on_watch_click i a p s) = currentlyDisplayedResults s"
  by (simp_all add: on_watch_click_def Let_def split: option.splits node.splits prod.splits)








lemma showMoreResults_fields [simp]:
  "totalResults (snd (showMoreResults s)) = totalResults s"
  "videoResults (snd (showMoreResults s)) = videoResults s"
  "websiteResults (snd (showMoreResults s)) = websiteResults s"
  "allResults (snd (showMoreResults s)) = allResults s"
  "statusElement (snd (showMoreResults s)) = statusElement s"
  "statsElement (snd (showMoreResults s)) = statsElement s"
  "searchButton (snd (showMoreResults s)) = searchButton s"
  "socket_connected (snd (showMoreResults s)) = socket_connected s"
  "emitted (snd (showMoreResults s)) = emitted s"
  "opened (snd (showMoreResults s)) = opened s"
  by (simp_all add: showMoreResults_def Let_def split: option.splits)

lemma displayResults_fields [simp]:
  "totalResults (snd (displayResults rs s)) = totalResults s"
  "videoResults (snd (displayResults rs s)) = videoResults s"
  "websiteResults (snd (displayResults rs s)) = websiteResults s"
  "statusElement (snd (displayResults rs s)) = statusElement s"
  "statsElement (snd (displayResults rs s)) = statsElement s"
  "searchButton (snd (displayResults rs s)) = searchButton s"
  "socket_connected (snd (displayResults rs s)) = socket_connected s"
  "emitted (snd (displayResults rs s)) = emitted s"
  "opened (snd (displayResults rs s)) = opened s"
  by (simp_all add: displayResults_def split: option.splits)

lemma allResults_displayResults:
  "allResults (snd (displayResults (allResults s) s)) = allResults s"
  by (simp add: displayResults_def split: option.splits)

lemma on_new_result_snd:
  "snd (on_new_result (Some r) q s) = count_result r s \<or>
   (\<exists>s4. (s4 = count_result r s \<or>
          s4 = snd (displayResults (allResults (count_result r s)) (count_result r s))) \<and>
     snd (on_new_result (Some r) q s) =
       updateSearchStats (totalResults s4) (videoResults s4) (websiteResults s4) q s4)"
proof -
  obtain c s4 where d:
    "displayResults (allResults (count_result r s)) (count_result r s) = (c, s4)"
    by (cases "displayResults (allResults (count_result r s)) (count_result r s)")
  have "c = TypeError \<Longrightarrow> s4 = count_result r s"
    using d by (auto simp: displayResults_def showMoreResults_Some split: option.splits)
  then show ?thesis
    using d by (cases c) (auto simp: on_new_result_def Let_def)
qed

lemma on_new_result_counts:
  "allResults (snd (on_new_result (Some r) q s)) = allResults s @ [r]"
  "totalResults (snd (on_new_result (Some r) q s)) = Suc (totalResults s)"
  "videoResults (snd (on_new_result (Some r) q s)) =
     videoResults s + (if r_type r = Some ''video'' then 1 else 0)"
  "websiteResults (snd (on_new_result (Some r) q s)) =
     websiteResults s + (if r_type r = Some ''website'' then 1 else 0)"
  using on_new_result_snd [of r q s] allResults_displayResults [of "count_result r s"]
  by auto

lemma run_Cons [simp]: "run (e # es) s = run es (step e s)"
  by (simp add: run_def)

lemma run_Nil [simp]: "run [] s = s"
  by (simp add: run_def)

lemma run_append: "run (es @ es') s = run es' (run es s)"
  by (simp add: run_def)

lemma run_new_results:
  "list_all is_new_result es \<Longrightarrow>
   allResults (run es s) = allResults s @ results_of es \<and>
   totalResults (run es s) = totalResults s + length (results_of es) \<and>
   videoResults (run es s) = videoResults s + length (filter (has_type ''video'') (results_of es)) \<and>
   websiteResults (run es s) =
     websiteResults s + length (filter (has_type ''website'') (results_of es))"
proof (induction es arbitrary: s)
  case Nil
  then show ?case by simp
next
  case (Cons e es)
  then obtain r q where e: "e = NewResult r q" by (cases e) auto
  show ?case
  proof (cases r)
    case None
    then show ?thesis using Cons e by (simp add: on_new_result_def)
  next
    case (Some res)
    then show ?thesis using Cons e by (simp add: on_new_result_counts has_type_def)
  qed
qed

lemma on_search_started_fields:
  "totalResults (on_search_started m s) = 0"
  "videoResults (on_search_started m s) = 0"
  "websiteResults (on_search_started m s) = 0"
  "allResults (on_search_started m s) = []"
  "currentlyDisplayedResults (on_search_started m s) = 0"
  "resultsContainer (on_search_started m s) = map_option (\<lambda>_. [Loader]) (resultsContainer s)"
  by (auto simp: on_search_started_def Let_def showLoadingIndicator_def clearResults_def
      split: option.splits)

lemma cursor_showMoreResults:
  "currentlyDisplayedResults s \<le> length (allResults s) \<Longrightarrow>
   currentlyDisplayedResults s \<le> currentlyDisplayedResults (snd (showMoreResults s))"
  by (auto simp: showMoreResults_def Let_def endIndex_def split: option.splits)

lemma cursor_on_new_result:
  assumes "resultsContainer s \<noteq> None" and "currentlyDisplayedResults s \<le> length (allResults s)"
  shows "currentlyDisplayedResults (snd (on_new_result (Some r) q s)) =
         min 5 (Suc (length (allResults s)))"
proof -
  from assms(1) obtain kids where k: "resultsContainer s = Some kids" by auto
  show ?thesis
    unfolding on_new_result_Some [OF assms]
    using k by (simp add: Let_def displayResults_Some showMoreResults_Some endIndex_def
        resultsPerPage_def)
qed


lemma cursor_le_on_new_result:
  assumes "currentlyDisplayedResults s \<le> length (allResults s)"
  shows "currentlyDisplayedResults (snd (on_new_result r q s))
     \<le> length (allResults (snd (on_new_result r q s)))"
proof (cases r)
  case None
  then show ?thesis using assms by (simp add: on_new_result_def)
next
  case (Some res)
  have c: "currentlyDisplayedResults (count_result res s) \<le> length (allResults (count_result res s))"
    using assms by simp
  show ?thesis
    using on_new_result_snd [of res q s] c
      cursor_le_displayResults [OF c, of "allResults (count_result res s)"]
    unfolding Some by auto
qed

lemma step_cursor_le:
  assumes "currentlyDisplayedResults s \<le> length (allResults s)"
  shows "currentlyDisplayedResults (step e s) \<le> length (allResults (step e s))"
  using assms
  by (cases e)
     (simp_all add: cursor_le_on_new_result cursor_le_showMoreResults on_connect_def
        on_disconnect_def on_search_started_fields on_search_completed_def on_search_error_def
        on_submit_def Let_def)

lemma run_cursor_le:
  "currentlyDisplayedResults s \<le> length (allResults s) \<Longrightarrow>
   currentlyDisplayedResults (run es s) \<le> length (allResults (run es s))"
  by (induction es arbitrary: s) (simp_all add: step_cursor_le)

lemma reachable_cursor_le:
  "currentlyDisplayedResults (run es (initial a b c d))
     \<le> length (allResults (run es (initial a b c d)))"
  by (rule run_cursor_le) (simp add: initial_def)

lemma resultsContainer_step:
  "(resultsContainer (step e s) = None) = (resultsContainer s = None)"
proof (cases e)
  case (NewResult r q)
  show ?thesis
  proof (cases r)
    case None
    then show ?thesis using NewResult by (simp add: on_new_result_def)
  next
    case (Some res)
    from on_new_result_snd [of res q s] show ?thesis
      using NewResult Some
      by (auto simp: displayResults_def showMoreResults_def Let_def split: option.splits)
  qed
next
  case ShowMore
  then show ?thesis by (auto simp: showMoreResults_def Let_def split: option.splits)
next
  case (WatchClick i a f)
  then show ?thesis
    by (auto simp: on_watch_click_def Let_def split: option.splits node.splits prod.splits)
qed (auto simp: on_connect_def on_disconnect_def on_search_started_fields on_search_completed_def
      on_search_error_def on_submit_def Let_def)

lemma resultsContainer_run:
  "(resultsContainer (run es s) = None) = (resultsContainer s = None)"
  by (induction es arbitrary: s) (simp_all add: resultsContainer_step)

lemma resultsContainer_initial: "(resultsContainer (initial a b c d) = None) = (\<not> a)"
  by (simp add: initial_def)


lemma trim_empty_iff: "trim v = [] \<longleftrightarrow> list_all is_space v"
proof
  assume "trim v = []"
  then have all: "\<forall>x \<in> set (dropWhile is_space v). is_space x"
    by (simp add: trim_def)
  have "dropWhile is_space v = []"
  proof (rule ccontr)
    assume ne: "dropWhile is_space v \<noteq> []"
    then have "\<not> is_space (hd (dropWhile is_space v))" by (rule hd_dropWhile)
    moreover have "hd (dropWhile is_space v) \<in> set (dropWhile is_space v)"
      using ne by (rule hd_in_set)
    ultimately show False using all by blast
  qed
  then show "list_all is_space v" by (simp add: list_all_iff)
next
  assume "list_all is_space v"
  then have d: "dropWhile is_space v = []" by (simp add: list_all_iff)
  show "trim v = []" unfolding trim_def d by simp
qed

lemma statusElement_updateStatus:
  "statusElement (updateStatus m t s) =
     map_option (\<lambda>_. (m, ''status status-'' @ t)) (statusElement s)"
  by (simp add: updateStatus_def split: option.splits)


lemma article_not_embeddable: "createVideoEmbed ''example.com/a'' = None"
  by code_simp

lemma showMoreResults_without_area:
  assumes "resultsContainer s = None"
    and "currentlyDisplayedResults s < length (allResults s)"
  shows "showMoreResults s = (TypeError, s)"
  using assms by (simp add: showMoreResults_def endIndex_def resultsPerPage_def)

section \<open>The claims\<close>

subsection \<open>C1: the reveal cursor\<close>

text \<open>
  Claim C1 says that within one session the reveal cursor never decreases and never
  exceeds the length of \<^verbatim>\<open>allResults\<close>, for every sequence of \<^verbatim>\<open>new_result\<close> events and
  Show-More invocations. Counterexample to C1: after six results and one Show-More
  invocation the cursor is 6; the seventh result makes \<^verbatim>\<open>displayResults\<close> start again from
  the first page, and the cursor is 5.
\<close>

theorem cursor_decreases_counterexample:
  "currentlyDisplayedResults (run six_results_then_show_more loaded_page) = 6 \<and>
   currentlyDisplayedResults
     (run (six_results_then_show_more @ [NewResult (Some sample_video) None]) loaded_page) = 5"
  by code_simp

text \<open>
  Claim C1 as amended: in every state that the client reaches, on any page, the cursor does
  not exceed the length of \<^verbatim>\<open>allResults\<close>, and a Show-More invocation does not decrease it;
  a \<^verbatim>\<open>new_result\<close> event with a result, on a page with a results area, sets the cursor to
  the minimum of 5 and the new length of \<^verbatim>\<open>allResults\<close>.
\<close>

theorem cursor_bounded_show_more_monotone:
  "currentlyDisplayedResults (run es (initial a b c d))
     \<le> length (allResults (run es (initial a b c d))) \<and>
   currentlyDisplayedResults (run es (initial a b c d))
     \<le> currentlyDisplayedResults (step ShowMore (run es (initial a b c d))) \<and>
   currentlyDisplayedResults (step (NewResult (Some r) q) (run es (initial True b c d))) =
     min 5 (length (allResults (step (NewResult (Some r) q) (run es (initial True b c d)))))"
proof -
  have area: "resultsContainer (run es (initial True b c d)) \<noteq> None"
    by (simp add: resultsContainer_run resultsContainer_initial)
  show ?thesis
    using reachable_cursor_le [of es a b c d]
    by (simp add: cursor_showMoreResults cursor_on_new_result [OF area reachable_cursor_le]
        on_new_result_counts)
qed

subsection \<open>C2: the accumulator and the counters\<close>

text \<open>
  Claim C2 says that for every sequence of \<^verbatim>\<open>new_result\<close> events of one session the length
  of \<^verbatim>\<open>allResults\<close> is the number of events received. Counterexample to C2: the handler
  ignores an event without a result, so after one such event the accumulator is empty.
\<close>

theorem new_result_without_result_counterexample:
  "length [NewResult None (Some ''q'')] = 1 \<and>
   length (allResults (run [NewResult None (Some ''q'')] (on_search_started ''go'' loaded_page))) = 0"
  by code_simp

text \<open>
  Claim C2 as amended: for every sequence of \<^verbatim>\<open>new_result\<close> events received after
  \<^verbatim>\<open>search_started\<close>, \<^verbatim>\<open>allResults\<close> is the list of the results that the events carry, in
  arrival order, so its length and \<^verbatim>\<open>totalResults\<close> are the number of events with a
  result; \<^verbatim>\<open>videoResults\<close> and \<^verbatim>\<open>websiteResults\<close> are the numbers of those results whose
  type is \<^verbatim>\<open>video\<close> and \<^verbatim>\<open>website\<close>.
\<close>

theorem new_result_counts:
  assumes "list_all is_new_result es"
  shows "allResults (run es (on_search_started m s)) = results_of es \<and>
         length (allResults (run es (on_search_started m s))) = length (results_of es) \<and>
         totalResults (run es (on_search_started m s)) = length (results_of es) \<and>
         videoResults (run es (on_search_started m s)) =
           length (filter (has_type ''video'') (results_of es)) \<and>
         websiteResults (run es (on_search_started m s)) =
           length (filter (has_type ''website'') (results_of es))"
  using run_new_results [OF assms, of "on_search_started m s"]
  by (simp add: on_search_started_fields)

text \<open>Witness for C2: two videos, one web site and one event without a result.\<close>

theorem new_result_counts_witness:
  "list_all is_new_result mixed_results \<and>
   length (mixed_results) = 4 \<and>
   length (allResults (run mixed_results (on_search_started ''go'' loaded_page))) = 3 \<and>
   videoResults (run mixed_results (on_search_started ''go'' loaded_page)) = 2 \<and>
   websiteResults (run mixed_results (on_search_started ''go'' loaded_page)) = 1"
proof -
  have h: "list_all is_new_result mixed_results"
    by (simp add: mixed_results_def)
  have r: "results_of mixed_results = [sample_video, sample_website, sample_video]"
    by (simp add: mixed_results_def)
  have t: "has_type ''video'' sample_video" "\<not> has_type ''video'' sample_website"
    "has_type ''website'' sample_website" "\<not> has_type ''website'' sample_video"
    by (simp_all add: has_type_def sample_video_def sample_website_def)
  from new_result_counts [OF h, of "''go''" loaded_page] show ?thesis
    using h by (simp add: r t) (simp add: mixed_results_def)
qed

subsection \<open>C3: one page more\<close>

text \<open>
  Claim C3: on a page with a results area and with the cursor within the accumulator, an
  invocation of \<^verbatim>\<open>showMoreResults\<close> returns, appends to the cards shown the cards of exactly
  min(5, length of \<^verbatim>\<open>allResults\<close> minus cursor) further results, those that follow the
  cursor in arrival order, and advances the cursor by that number.
\<close>

theorem showMoreResults_reveals:
  assumes area: "resultsContainer s \<noteq> None"
    and inv: "currentlyDisplayedResults s \<le> length (allResults s)"
  shows "fst (showMoreResults s) = Returned \<and>
         currentlyDisplayedResults (snd (showMoreResults s)) =
           currentlyDisplayedResults s +
           min 5 (length (allResults s) - currentlyDisplayedResults s) \<and>
         allResults (snd (showMoreResults s)) = allResults s \<and>
         cards_of (children (snd (showMoreResults s))) =
           cards_of (children s) @
           map createResultElement
             (take (min 5 (length (allResults s) - currentlyDisplayedResults s))
                (drop (currentlyDisplayedResults s) (allResults s)))"
proof -
  from area obtain kids where k: "resultsContainer s = Some kids" by auto
  show ?thesis
    unfolding showMoreResults_Some [OF k]
    using k endIndex_eq [OF inv] cards_of_append_batch [OF inv, of kids]
    by (simp add: children_def cards_of_add_show_more cards_of_remove_show_more)
qed

text \<open>Witness for C3: with six results and five of them shown, one more card appears.\<close>

theorem showMoreResults_reveals_witness:
  "resultsContainer (run six_results loaded_page) \<noteq> None \<and>
   currentlyDisplayedResults (run six_results loaded_page)
     \<le> length (allResults (run six_results loaded_page)) \<and>
   fst (showMoreResults (run six_results loaded_page)) = Returned \<and>
   currentlyDisplayedResults (snd (showMoreResults (run six_results loaded_page))) = 6 \<and>
   cards_of (children (snd (showMoreResults (run six_results loaded_page)))) =
     cards_of (children (run six_results loaded_page)) @ [createResultElement sample_video]"
proof -
  let ?s = "run six_results loaded_page"
  have area: "resultsContainer ?s \<noteq> None" by code_simp
  have cur: "currentlyDisplayedResults ?s = 5" by code_simp
  have len: "length (allResults ?s) = 6" by code_simp
  have rest: "drop 5 (allResults ?s) = [sample_video]"
    using run_new_results [of six_results loaded_page]
    by (simp add: six_results_def loaded_page_def initial_def numeral_eq_Suc)
  have inv: "currentlyDisplayedResults ?s \<le> length (allResults ?s)"
    by (simp add: cur len)
  from showMoreResults_reveals [OF area inv] show ?thesis
    using area by (simp add: cur len rest)
qed

subsection \<open>C4: the start of a search\<close>

text \<open>
  Claim C4: whatever the state before, the handler of \<^verbatim>\<open>search_started\<close> leaves the three
  counters at 0, \<^verbatim>\<open>allResults\<close> empty and the cursor at 0, and the results area, when the
  page has one, holds the loading indicator only: no card and no Show-More button.
\<close>

theorem search_started_resets:
  "totalResults (on_search_started m s) = 0 \<and>
   videoResults (on_search_started m s) = 0 \<and>
   websiteResults (on_search_started m s) = 0 \<and>
   allResults (on_search_started m s) = [] \<and>
   currentlyDisplayedResults (on_search_started m s) = 0 \<and>
   resultsContainer (on_search_started m s) = map_option (\<lambda>_. [Loader]) (resultsContainer s) \<and>
   cards_of (children (on_search_started m s)) = [] \<and>
   count_show_more (children (on_search_started m s)) = 0"
  by (cases "resultsContainer s") (simp_all add: on_search_started_fields children_def)

subsection \<open>C5: the URL shapes of the video-link resolver\<close>

text \<open>
  Claim C5, in four parts. First: a URL made of an optional scheme, an optional
  \<^verbatim>\<open>www.\<close>, the text of one of the documented shapes and a rest that starts with at least one
  character of the id class yields the template of the provider of that shape, filled with
  the longest such start of the rest, provided that no pattern tried earlier matches the
  URL. Second, the priority rule: for a non-empty URL, the first pattern that matches, in
  the order YouTube, Vimeo, Dailymotion and within a family in the order of the source,
  decides the provider and the id. Third: a non-empty URL that no pattern matches yields
  \<^verbatim>\<open>null\<close>. Fourth: the fragment contains the id. The lemmas \<open>cls_match_query\<close>,
  \<open>cls_match_path\<close>, \<open>cls_match_digits\<close> and \<open>cls_match_alnum\<close> say which
  characters an id consists of.
\<close>

theorem video_resolver_shapes:
  "((j, l, n, ms) \<in> set url_shapes \<and> h \<in> set url_heads \<and>
    takeWhile (cls_match n ms) rest \<noteq> [] \<and>
    (\<forall>p \<in> set (take j all_patterns). str_match p (h @ l @ rest) = None) \<longrightarrow>
    createVideoEmbed (h @ l @ rest) =
      Some (iframe_of (provider_of j) (takeWhile (cls_match n ms) rest))) \<and>
   (url \<noteq> [] \<and> k < length all_patterns \<and>
    (\<forall>p \<in> set (take k all_patterns). str_match p url = None) \<and>
    str_match (all_patterns ! k) url = Some (Some v) \<and> v \<noteq> [] \<longrightarrow>
    createVideoEmbed url = Some (iframe_of (provider_of k) v)) \<and>
   (url \<noteq> [] \<and> (\<forall>p \<in> set all_patterns. str_match p url = None) \<longrightarrow>
    createVideoEmbed url = None) \<and>
   (\<exists>before after. iframe_of pr v = before @ v @ after)"
proof (intro conjI impI)
  assume a: "(j, l, n, ms) \<in> set url_shapes \<and> h \<in> set url_heads \<and>
    takeWhile (cls_match n ms) rest \<noteq> [] \<and>
    (\<forall>p \<in> set (take j all_patterns). str_match p (h @ l @ rest) = None)"
  then have m: "str_match (all_patterns ! j) (h @ l @ rest) =
      Some (Some (takeWhile (cls_match n ms) rest))"
    by (intro shape_match) simp_all
  have "l \<noteq> []" and "j < length all_patterns"
    using a by (auto simp: url_shapes_def all_patterns_def family_lengths)
  then show "createVideoEmbed (h @ l @ rest) =
      Some (iframe_of (provider_of j) (takeWhile (cls_match n ms) rest))"
    using a m by (intro createVideoEmbed_priority) simp_all
next
  assume "url \<noteq> [] \<and> k < length all_patterns \<and>
    (\<forall>p \<in> set (take k all_patterns). str_match p url = None) \<and>
    str_match (all_patterns ! k) url = Some (Some v) \<and> v \<noteq> []"
  then show "createVideoEmbed url = Some (iframe_of (provider_of k) v)"
    by (intro createVideoEmbed_priority) simp_all
next
  assume "url \<noteq> [] \<and> (\<forall>p \<in> set all_patterns. str_match p url = None)"
  then show "createVideoEmbed url = None"
    by (intro createVideoEmbed_no_match) simp_all
next
  show "\<exists>before after. iframe_of pr v = before @ v @ after"
    by (rule iframe_contains_id)
qed

text \<open>
  Witness for C5: the short-domain YouTube shape with a scheme and a query string, for the
  first two parts, and a URL of another site for the third.
\<close>

theorem video_resolver_shapes_witness:
  "(3, ''youtu.be/'', True, ''?&#'') \<in> set url_shapes \<and> ''https://'' \<in> set url_heads \<and>
   takeWhile (cls_match True ''?&#'') ''a1?t=2'' = ''a1'' \<and>
   list_all (\<lambda>p. str_match p ''https://youtu.be/a1?t=2'' = None) (take 3 all_patterns) \<and>
   str_match (all_patterns ! 3) ''https://youtu.be/a1?t=2'' = Some (Some ''a1'') \<and>
   createVideoEmbed ''https://youtu.be/a1?t=2'' = Some (youtube_iframe ''a1'') \<and>
   list_all (\<lambda>p. str_match p ''example.com/a'' = None) all_patterns \<and>
   createVideoEmbed ''example.com/a'' = None"
proof -
  have s: "(3, ''youtu.be/'', True, ''?&#'') \<in> set url_shapes"
    by (simp add: url_shapes_def)
  have h: "''https://'' \<in> set url_heads"
    by (simp add: url_heads_def)
  have t: "takeWhile (cls_match True ''?&#'') ''a1?t=2'' = ''a1''"
    by code_simp
  have e: "\<forall>p \<in> set (take 3 all_patterns). str_match p ''https://youtu.be/a1?t=2'' = None"
    by code_simp
  have m: "str_match (all_patterns ! 3) ''https://youtu.be/a1?t=2'' = Some (Some ''a1'')"
    by code_simp
  have n: "\<forall>p \<in> set all_patterns. str_match p ''example.com/a'' = None"
    by code_simp
  have p: "provider_of 3 = YouTube"
    by (simp add: provider_of_def)
  have c1: "createVideoEmbed (''https://'' @ ''youtu.be/'' @ ''a1?t=2'') =
      Some (iframe_of (provider_of 3) (takeWhile (cls_match True ''?&#'') ''a1?t=2''))"
    using video_resolver_shapes [where j = 3 and l = "''youtu.be/''" and n = True
        and ms = "''?&#''" and h = "''https://''" and rest = "''a1?t=2''"] s h t e
    by simp
  have c3: "createVideoEmbed ''example.com/a'' = None"
    using video_resolver_shapes [where url = "''example.com/a''"] n by simp
  show ?thesis
    using s h t e m n c1 c3 by (simp add: p list_all_iff)
qed

text \<open>
  One example URL for each documented shape, with the id that the fragment carries, and a
  letter-case variant of the first.
\<close>

lemma video_resolver_examples:
  "createVideoEmbed ''youtube.com/watch?v=a1&t=2'' = Some (youtube_iframe ''a1'')"
  "createVideoEmbed ''youtube.com/embed/a1?x'' = Some (youtube_iframe ''a1'')"
  "createVideoEmbed ''youtube.com/v/a1'' = Some (youtube_iframe ''a1'')"
  "createVideoEmbed ''youtu.be/a1#t'' = Some (youtube_iframe ''a1'')"
  "createVideoEmbed ''vimeo.com/76'' = Some (vimeo_iframe ''76'')"
  "createVideoEmbed ''player.vimeo.com/video/76'' = Some (vimeo_iframe ''76'')"
  "createVideoEmbed ''dailymotion.com/video/x8'' = Some (dailymotion_iframe ''x8'')"
  "createVideoEmbed ''dailymotion.com/hub/x8_y'' = Some (dailymotion_iframe ''x8'')"
  "createVideoEmbed ''dai.ly/x8'' = Some (dailymotion_iframe ''x8'')"
  "createVideoEmbed ''HTTPS://WWW.YouTube.com/watch?v=a1'' = Some (youtube_iframe ''a1'')"
  by code_simp+

subsection \<open>C6: the results of the video-link resolver\<close>

text \<open>
  Claim C6 says that for every string the resolver returns an embed fragment or
  \<^verbatim>\<open>null\<close>. Counterexample to C6: for the empty string it returns the empty string, which
  is neither.
\<close>

theorem createVideoEmbed_empty_counterexample:
  "createVideoEmbed [] = Some [] \<and> createVideoEmbed [] \<noteq> None \<and> \<not> is_embed_fragment []"
  by (simp add: createVideoEmbed_def is_embed_fragment_def youtube_iframe_def vimeo_iframe_def
      dailymotion_iframe_def youtube_head_def vimeo_head_def dailymotion_head_def)

text \<open>
  Claim C6 as amended: for every non-empty string the resolver returns an embed fragment or
  \<^verbatim>\<open>null\<close>; for the empty string it returns the empty string.
\<close>

theorem createVideoEmbed_result:
  "createVideoEmbed [] = Some [] \<and>
   (url \<noteq> [] \<longrightarrow>
      createVideoEmbed url = None \<or>
      (\<exists>f. createVideoEmbed url = Some f \<and> is_embed_fragment f))"
  using createVideoEmbed_cases [of url] createVideoEmbed_cases [of "[]"]
  by (auto simp: is_embed_fragment_def)

text \<open>Witness for C6: a URL of the short-domain YouTube shape.\<close>

theorem createVideoEmbed_result_witness:
  "''youtu.be/a1'' \<noteq> [] \<and>
   (createVideoEmbed ''youtu.be/a1'' = None \<or>
    (\<exists>f. createVideoEmbed ''youtu.be/a1'' = Some f \<and> is_embed_fragment f))"
  using createVideoEmbed_result [of "''youtu.be/a1''"] by simp

subsection \<open>C7: the guards of a submission\<close>

text \<open>
  Claim C7 says, among other things, that a valid query with both category check boxes
  unchecked is rejected with the category-selection message. Counterexample to C7: the
  connection is checked first, so while disconnected such a submission is rejected with the
  connection message.
\<close>

theorem submit_disconnected_unchecked_counterexample:
  "\<not> list_all is_space ''cats'' \<and> \<not> socket_connected loaded_page \<and>
   statusElement (on_submit ''cats'' False False loaded_page) =
     Some (''Not connected to server. Please wait...'', ''status status-error'') \<and>
   \<not> rejected_with ''Please select at least one search type (Videos or Websites)''
       loaded_page (on_submit ''cats'' False False loaded_page)"
proof -
  have s: "statusElement (on_submit ''cats'' False False loaded_page) =
     Some (''Not connected to server. Please wait...'', ''status status-error'')"
    by code_simp
  have u: "statusElement
      (updateStatus ''Please select at least one search type (Videos or Websites)'' ''error''
         loaded_page) =
     Some (''Please select at least one search type (Videos or Websites)'', ''status status-error'')"
    by code_simp
  have "on_submit ''cats'' False False loaded_page \<noteq>
      updateStatus ''Please select at least one search type (Videos or Websites)'' ''error''
        loaded_page"
  proof
    assume "on_submit ''cats'' False False loaded_page =
      updateStatus ''Please select at least one search type (Videos or Websites)'' ''error''
        loaded_page"
    then have "statusElement (on_submit ''cats'' False False loaded_page) =
      statusElement (updateStatus
        ''Please select at least one search type (Videos or Websites)'' ''error'' loaded_page)"
      by simp
    then show False unfolding s u by simp
  qed
  moreover have "\<not> list_all is_space ''cats''" by code_simp
  moreover have "\<not> socket_connected loaded_page" by code_simp
  ultimately show ?thesis using s by (simp add: rejected_with_def)
qed

text \<open>
  Claim C7 as amended: a query that is empty or consists of white space only is rejected
  with the message ``Please enter a search query''; any other query is rejected with the
  connection message while the socket is disconnected; while it is connected, such a query
  with both check boxes unchecked is rejected with the category-selection message, and with
  at least one box checked exactly one \<^verbatim>\<open>search_query\<close> event is emitted, with the trimmed
  query and the two check box states, and nothing else changes. A rejection emits no event.
\<close>

theorem submit_guards:
  "(list_all is_space v \<longrightarrow>
      rejected_with ''Please enter a search query'' s (on_submit v videos websites s)) \<and>
   (\<not> list_all is_space v \<and> \<not> socket_connected s \<longrightarrow>
      rejected_with ''Not connected to server. Please wait...'' s (on_submit v videos websites s)) \<and>
   (\<not> list_all is_space v \<and> socket_connected s \<and> \<not> videos \<and> \<not> websites \<longrightarrow>
      rejected_with ''Please select at least one search type (Videos or Websites)'' s
        (on_submit v videos websites s)) \<and>
   (\<not> list_all is_space v \<and> socket_connected s \<and> (videos \<or> websites) \<longrightarrow>
      on_submit v videos websites s = s\<lparr>emitted := emitted s @ [(trim v, videos, websites)]\<rparr>)"
  by (auto simp: on_submit_def Let_def rejected_with_def trim_empty_iff [symmetric])

text \<open>Witness for C7: one submission for each of the four cases.\<close>

theorem submit_guards_witness:
  "list_all is_space ''  '' \<and>
   rejected_with ''Please enter a search query'' loaded_page (on_submit ''  '' True True loaded_page) \<and>
   \<not> list_all is_space '' cats '' \<and> \<not> socket_connected loaded_page \<and>
   rejected_with ''Not connected to server. Please wait...'' loaded_page
     (on_submit '' cats '' True True loaded_page) \<and>
   socket_connected (on_connect loaded_page) \<and>
   rejected_with ''Please select at least one search type (Videos or Websites)''
     (on_connect loaded_page) (on_submit '' cats '' False False (on_connect loaded_page)) \<and>
   on_submit '' cats '' True False (on_connect loaded_page) =
     (on_connect loaded_page)\<lparr>emitted := emitted (on_connect loaded_page) @ [(''cats'', True, False)]\<rparr>"
proof -
  have sp: "list_all is_space ''  ''" by code_simp
  have ns: "\<not> list_all is_space '' cats ''" by code_simp
  have tr: "trim '' cats '' = ''cats''" by code_simp
  have dc: "\<not> socket_connected loaded_page" by code_simp
  have co: "socket_connected (on_connect loaded_page)" by code_simp
  have 1: "rejected_with ''Please enter a search query'' loaded_page
      (on_submit ''  '' True True loaded_page)"
    using submit_guards [of "''  ''" loaded_page True True] sp by blast
  have 2: "rejected_with ''Not connected to server. Please wait...'' loaded_page
      (on_submit '' cats '' True True loaded_page)"
    using submit_guards [of "'' cats ''" loaded_page True True] ns dc by blast
  have 3: "rejected_with ''Please select at least one search type (Videos or Websites)''
      (on_connect loaded_page) (on_submit '' cats '' False False (on_connect loaded_page))"
    using submit_guards [of "'' cats ''" "on_connect loaded_page" False False] ns co by blast
  have 4: "on_submit '' cats '' True False (on_connect loaded_page) =
      (on_connect loaded_page)\<lparr>emitted := emitted (on_connect loaded_page) @
        [(trim '' cats '', True, False)]\<rparr>"
    using submit_guards [of "'' cats ''" "on_connect loaded_page" True False] ns co by blast
  show ?thesis
    using sp ns dc co 1 2 3 4 unfolding tr by blast
qed

subsection \<open>C8: the watch toggle\<close>

text \<open>
  Claim C8 says that the first activation of the watch toggle reveals the embed container,
  with the embed or the fallback message, and that the second one collapses and clears it.
  For a video card whose URL no pattern matches the code does not do so: the first
  activation writes the fallback message and leaves the container hidden, so the second
  activation takes the same branch again and the container still holds the message.
\<close>

theorem watch_toggle_fallback_stays:
  "createVideoEmbed (r_url sample_article_video) = None \<and>
   watch_button (createResultElement sample_article_video) = Some watch_label \<and>
   video_display (fst (watch_onclick False (createResultElement sample_article_video))) = ''none'' \<and>
   video_html (fst (watch_onclick False (createResultElement sample_article_video))) =
     cannot_embed_html \<and>
   video_html (fst (watch_onclick False
       (fst (watch_onclick False (createResultElement sample_article_video))))) =
     cannot_embed_html \<and>
   cannot_embed_html \<noteq> []"
  using article_not_embeddable
  by (simp add: sample_article_video_def sample_video_def watch_onclick_def
      handleWatchClick_def createResultElement_def cannot_embed_html_def)

text \<open>
  For a card whose URL the resolver can embed the toggle works as C8 says: the first
  activation builds the embed and shows the container, the second hides and empties it and
  sets the label of the button again.
\<close>

lemma watch_toggle_embeddable:
  assumes "createVideoEmbed (r_url result) = Some e" and "e \<noteq> []"
    and "r_type result = Some ''video''"
  shows "video_display (fst (watch_onclick a (createResultElement result))) = ''block'' \<and>
         video_html (fst (watch_onclick a (createResultElement result))) = e @ close_button_html \<and>
         video_display (fst (watch_onclick a'
           (fst (watch_onclick a (createResultElement result))))) = ''none'' \<and>
         video_html (fst (watch_onclick a'
           (fst (watch_onclick a (createResultElement result))))) = [] \<and>
         watch_button (fst (watch_onclick a'
           (fst (watch_onclick a (createResultElement result))))) =
           watch_button (createResultElement result)"
  using assms by (simp add: watch_onclick_def handleWatchClick_def createResultElement_def)

subsection \<open>C9: Show-More with nothing left to show\<close>




subsection \<open>C10: the end of a search\<close>


end
